theory Spec2Isabelle
  imports Complex_Main
begin

section \<open>proxy-fetch: the pagination resolver, the fetch loop, the adapters and the store\<close>

text \<open>
  The program is the script \<^verbatim>\<open>fetch.js\<close> in its later revision (the one with the
  \<^verbatim>\<open>{page:A/B}\<close> placeholder, \<^verbatim>\<open>POST:\<close> sources and the \<^verbatim>\<open>singlePage\<close> marker). A
  \<^typ>\<open>char\<close> stands for a UTF-16 code unit below 256, a JavaScript string is a
  \<^typ>\<open>string\<close>. Numbers are exact: what \<^verbatim>\<open>parseInt\<close> and \<^verbatim>\<open>+\<close> produce is an integer or
  \<^verbatim>\<open>NaN\<close>, with no rounding to binary64, so the model is the engine's behaviour while
  every page number stays below \<open>2^53\<close> in absolute value. Exceptions are values of
  \<open>js_error\<close>; logging, the user agent, the request timeout and the clock are left out.
\<close>

subsection \<open>Strings\<close>

fun starts_with :: "string \<Rightarrow> string \<Rightarrow> bool" where
  "starts_with [] s = True"
| "starts_with (p # ps) [] = False"
| "starts_with (p # ps) (c # cs) = (p = c \<and> starts_with ps cs)"

text \<open>\<^verbatim>\<open>s.indexOf(sub) > -1\<close>\<close>

fun contains :: "string \<Rightarrow> string \<Rightarrow> bool" where
  "contains sub [] = (sub = [])"
| "contains sub (c # cs) = (starts_with sub (c # cs) \<or> contains sub cs)"

text \<open>\<^verbatim>\<open>s.split(c)\<close> for a one-character separator: never the empty array.\<close>

fun split_on :: "char \<Rightarrow> string \<Rightarrow> string list" where
  "split_on c [] = [[]]"
| "split_on c (x # xs) =
     (if x = c then [] # split_on c xs
      else (case split_on c xs of
              [] \<Rightarrow> [[x]]
            | w # ws \<Rightarrow> (x # w) # ws))"

text \<open>\<^verbatim>\<open>xs.join(sep)\<close>\<close>

fun join_with :: "string \<Rightarrow> string list \<Rightarrow> string" where
  "join_with sep [] = []"
| "join_with sep [x] = x"
| "join_with sep (x # y # ys) = x @ sep @ join_with sep (y # ys)"

text \<open>
  White space and line terminators of the language, as far as they are code units below
  256: TAB, LF, VT, FF, CR, SP, NBSP.
\<close>

definition is_ws :: "char \<Rightarrow> bool" where
  "is_ws c \<longleftrightarrow> (of_char c :: nat) \<in> {9, 10, 11, 12, 13, 32, 160}"

definition line_terminator :: "char \<Rightarrow> bool" where
  "line_terminator c \<longleftrightarrow> (of_char c :: nat) \<in> {10, 13}"

definition trim :: "string \<Rightarrow> string" where
  "trim s = rev (dropWhile is_ws (rev (dropWhile is_ws s)))"

subsection \<open>Numbers and the values a page variable holds\<close>

datatype jsnum = NaN | Fin int

datatype jsval = Num jsnum | Str string

text \<open>What \<^verbatim>\<open>ToNumber\<close> of a string can be: a comparison operand only, never stored.\<close>

datatype extnum = XNaN | XNegInf | XFin rat | XPosInf

definition digit_of :: "nat \<Rightarrow> char \<Rightarrow> nat option" where
  "digit_of radix c =
     (let n = (of_char c :: nat);
          v = (if 48 \<le> n \<and> n \<le> 57 then Some (n - 48)
               else if 97 \<le> n \<and> n \<le> 122 then Some (n - 87)
               else if 65 \<le> n \<and> n \<le> 90 then Some (n - 55)
               else None)
      in case v of None \<Rightarrow> None | Some d \<Rightarrow> if d < radix then Some d else None)"

definition is_digit :: "nat \<Rightarrow> char \<Rightarrow> bool" where
  "is_digit radix c \<longleftrightarrow> digit_of radix c \<noteq> None"

text \<open>The value of the longest prefix of digits, most significant digit first.\<close>

fun digits_value :: "nat \<Rightarrow> nat \<Rightarrow> string \<Rightarrow> nat" where
  "digits_value radix acc [] = acc"
| "digits_value radix acc (c # cs) =
     (case digit_of radix c of
        None \<Rightarrow> acc
      | Some d \<Rightarrow> digits_value radix (acc * radix + d) cs)"

definition all_digits :: "nat \<Rightarrow> string \<Rightarrow> bool" where
  "all_digits radix s \<longleftrightarrow> s \<noteq> [] \<and> list_all (is_digit radix) s"

definition digit_char :: "nat \<Rightarrow> char" where
  "digit_char d = char_of (48 + d)"

function show_nat :: "nat \<Rightarrow> string" where
  "show_nat n = (if n < 10 then [digit_char n] else show_nat (n div 10) @ [digit_char (n mod 10)])"
  by pat_completeness auto
termination
  by (relation "measure id") auto

declare show_nat.simps [simp del]

definition show_int :: "int \<Rightarrow> string" where
  "show_int i = (if i < 0 then CHR ''-'' # show_nat (nat (- i)) else show_nat (nat i))"

text \<open>\<^verbatim>\<open>String(v)\<close>\<close>

fun to_string :: "jsval \<Rightarrow> string" where
  "to_string (Str s) = s"
| "to_string (Num NaN) = ''NaN''"
| "to_string (Num (Fin i)) = show_int i"

text \<open>
  \<^verbatim>\<open>parseInt(v)\<close> with no radix: leading white space is skipped, then a sign, then
  \<^verbatim>\<open>0x\<close> selects base 16, and the longest run of digits is read; no digit gives \<^verbatim>\<open>NaN\<close>.
\<close>

definition parseInt_str :: "string \<Rightarrow> jsnum" where
  "parseInt_str s =
     (let s1 = dropWhile is_ws s;
          neg = starts_with ''-'' s1;
          s2 = (if starts_with ''-'' s1 \<or> starts_with ''+'' s1 then drop 1 s1 else s1);
          hex = (starts_with ''0x'' s2 \<or> starts_with ''0X'' s2);
          radix = (if hex then 16 else 10);
          s3 = (if hex then drop 2 s2 else s2)
      in if takeWhile (is_digit radix) s3 = [] then NaN
         else Fin ((if neg then - 1 else 1) * int (digits_value radix 0 s3)))"

definition parseInt :: "jsval \<Rightarrow> jsnum" where
  "parseInt v = parseInt_str (to_string v)"

text \<open>\<^verbatim>\<open>a + b\<close> on two numbers.\<close>

fun js_add :: "jsnum \<Rightarrow> jsnum \<Rightarrow> jsnum" where
  "js_add (Fin a) (Fin b) = Fin (a + b)"
| "js_add _ _ = NaN"

text \<open>
  \<^verbatim>\<open>ToNumber\<close> of a string: trimmed; empty is 0; a hexadecimal, octal or binary integer
  literal without sign; or a signed decimal literal with optional fraction and exponent,
  or \<^verbatim>\<open>Infinity\<close>; anything else is \<^verbatim>\<open>NaN\<close>.
\<close>

definition signed_integer :: "string \<Rightarrow> int option" where
  "signed_integer s =
     (let neg = starts_with ''-'' s;
          ds = (if starts_with ''-'' s \<or> starts_with ''+'' s then drop 1 s else s)
      in if all_digits 10 ds
         then Some ((if neg then - 1 else 1) * int (digits_value 10 0 ds))
         else None)"

definition scale10 :: "rat \<Rightarrow> int \<Rightarrow> rat" where
  "scale10 m e = (if 0 \<le> e then m * 10 ^ nat e else m / 10 ^ nat (- e))"

definition unsigned_decimal :: "string \<Rightarrow> extnum" where
  "unsigned_decimal u =
     (if u = ''Infinity'' then XPosInf
      else
        (let ip = takeWhile (is_digit 10) u;
             r1 = dropWhile (is_digit 10) u;
             dot = starts_with ''.'' r1;
             fp = (if dot then takeWhile (is_digit 10) (drop 1 r1) else []);
             r2 = (if dot then dropWhile (is_digit 10) (drop 1 r1) else r1);
             ex = (if r2 = [] then Some 0
                   else if starts_with ''e'' r2 \<or> starts_with ''E'' r2
                   then signed_integer (drop 1 r2)
                   else None)
         in if ip = [] \<and> fp = [] then XNaN
            else (case ex of
                    None \<Rightarrow> XNaN
                  | Some e \<Rightarrow>
                      XFin (scale10 (of_nat (digits_value 10 0 (ip @ fp)) / 10 ^ length fp) e))))"

fun ext_neg :: "extnum \<Rightarrow> extnum" where
  "ext_neg XNaN = XNaN"
| "ext_neg XNegInf = XPosInf"
| "ext_neg XPosInf = XNegInf"
| "ext_neg (XFin q) = XFin (- q)"

definition radix_literal :: "nat \<Rightarrow> string \<Rightarrow> extnum" where
  "radix_literal radix ds =
     (if all_digits radix ds then XFin (of_nat (digits_value radix 0 ds)) else XNaN)"

definition string_to_number :: "string \<Rightarrow> extnum" where
  "string_to_number s =
     (let t = trim s
      in if t = [] then XFin 0
         else if starts_with ''0x'' t \<or> starts_with ''0X'' t then radix_literal 16 (drop 2 t)
         else if starts_with ''0o'' t \<or> starts_with ''0O'' t then radix_literal 8 (drop 2 t)
         else if starts_with ''0b'' t \<or> starts_with ''0B'' t then radix_literal 2 (drop 2 t)
         else if starts_with ''-'' t then ext_neg (unsigned_decimal (drop 1 t))
         else if starts_with ''+'' t then unsigned_decimal (drop 1 t)
         else unsigned_decimal t)"

fun to_number :: "jsval \<Rightarrow> extnum" where
  "to_number (Str s) = string_to_number s"
| "to_number (Num NaN) = XNaN"
| "to_number (Num (Fin i)) = XFin (of_int i)"

fun ext_lt :: "extnum \<Rightarrow> extnum \<Rightarrow> bool" where
  "ext_lt XNaN _ = False"
| "ext_lt _ XNaN = False"
| "ext_lt XNegInf y = (y \<noteq> XNegInf)"
| "ext_lt (XFin a) XNegInf = False"
| "ext_lt (XFin a) (XFin b) = (a < b)"
| "ext_lt (XFin a) XPosInf = True"
| "ext_lt XPosInf _ = False"

text \<open>Two strings compare code unit by code unit.\<close>

fun str_lt :: "string \<Rightarrow> string \<Rightarrow> bool" where
  "str_lt [] [] = False"
| "str_lt [] (b # bs) = True"
| "str_lt (a # as) [] = False"
| "str_lt (a # as) (b # bs) =
     (if a = b then str_lt as bs else (of_char a :: nat) < of_char b)"

text \<open>\<^verbatim>\<open>x < y\<close> and \<^verbatim>\<open>x > y\<close>\<close>

fun js_lt :: "jsval \<Rightarrow> jsval \<Rightarrow> bool" where
  "js_lt (Str a) (Str b) = str_lt a b"
| "js_lt x y = ext_lt (to_number x) (to_number y)"

definition js_gt :: "jsval \<Rightarrow> jsval \<Rightarrow> bool" where
  "js_gt x y = js_lt y x"

text \<open>\<^verbatim>\<open>s[0] == 0\<close> for a string \<open>s\<close>: \<^verbatim>\<open>undefined == 0\<close> is false.\<close>

definition first_char_eq_zero :: "string \<Rightarrow> bool" where
  "first_char_eq_zero s = (case s of [] \<Rightarrow> False | c # _ \<Rightarrow> string_to_number [c] = XFin 0)"

subsection \<open>The pattern \<^verbatim>\<open>/{page(.*)}/\<close> and the replacement of its match\<close>

text \<open>
  A match of \<^verbatim>\<open>{page(.*)}\<close> at the head of the string: the group is greedy, so it runs to
  the last \<^verbatim>\<open>}\<close> before the first line terminator. The result is the group and the text
  after the match.
\<close>

definition match_page_here :: "string \<Rightarrow> (string \<times> string) option" where
  "match_page_here s =
     (if starts_with ''{page'' s then
        (let rest = drop 5 s;
             run = takeWhile (\<lambda>c. \<not> line_terminator c) rest;
             tail = rev (takeWhile (\<lambda>c. c \<noteq> CHR ''}'') (rev run))
         in if CHR ''}'' \<in> set run
            then Some (take (length run - length tail - 1) run,
                       tail @ drop (length run) rest)
            else None)
      else None)"

text \<open>\<^verbatim>\<open>exec\<close>: the leftmost match; the text before it, the group, the text after it.\<close>

fun exec_page :: "string \<Rightarrow> (string \<times> string \<times> string) option" where
  "exec_page [] = None"
| "exec_page (c # cs) =
     (case match_page_here (c # cs) of
        Some (g, post) \<Rightarrow> Some ([], g, post)
      | None \<Rightarrow>
          (case exec_page cs of
             None \<Rightarrow> None
           | Some (pre, g, post) \<Rightarrow> Some (c # pre, g, post)))"

text \<open>
  The replacement text of \<^verbatim>\<open>String.prototype.replace\<close> for a pattern without groups:
  \<^verbatim>\<open>$$\<close> is a dollar, \<^verbatim>\<open>$&\<close> the match, \<^verbatim>\<open>$`\<close> the text before it, \<^verbatim>\<open>$'\<close> the text after
  it; every other character stands for itself.
\<close>

fun get_substitution :: "string \<Rightarrow> string \<Rightarrow> string \<Rightarrow> string \<Rightarrow> string" where
  "get_substitution pre matched post [] = []"
| "get_substitution pre matched post [c] = [c]"
| "get_substitution pre matched post (c # d # r) =
     (if c = CHR ''$'' \<and> d = CHR ''$'' then CHR ''$'' # get_substitution pre matched post r
      else if c = CHR ''$'' \<and> d = CHR ''&'' then matched @ get_substitution pre matched post r
      else if c = CHR ''$'' \<and> d = CHR 0x60 then pre @ get_substitution pre matched post r
      else if c = CHR ''$'' \<and> d = CHR 0x27 then post @ get_substitution pre matched post r
      else c # get_substitution pre matched post (d # r))"

text \<open>\<^verbatim>\<open>pageUrl.replace(/{page.*}/, repl)\<close> on a string where the pattern matched.\<close>

definition replace_page :: "string \<times> string \<times> string \<Rightarrow> string \<Rightarrow> string" where
  "replace_page m repl =
     (case m of (pre, g, post) \<Rightarrow>
        pre @ get_substitution pre (''{page'' @ g @ ''}'') post repl @ post)"

subsection \<open>The object and its events\<close>

datatype js_error = TypeError | SyntaxError | URIError

text \<open>
  The fields of \<^verbatim>\<open>Fetch\<close>. The three with an underscore in the source are
  \<open>priv_urlIndex\<close>, \<open>priv_urlPage\<close> and \<open>priv_proxies\<close>; \<open>urlPage\<close> is the property of
  that name, absent until something assigns it. \<open>retry\<close> is \<open>None\<close> for \<^verbatim>\<open>false\<close>.
\<close>

record fetch_state =
  urls :: "string list"
  outputFile :: string
  verbose :: bool
  retry :: "string option"
  priv_urlIndex :: nat
  priv_urlPage :: jsval
  priv_proxies :: "string list"
  urlPage :: "jsval option"

text \<open>The constructor: \<open>us\<close>, \<open>out\<close>, \<open>v\<close> and \<open>r\<close> are the options after their defaults.\<close>

definition Fetch :: "string list \<Rightarrow> string \<Rightarrow> bool \<Rightarrow> string option \<Rightarrow> fetch_state" where
  "Fetch us out v r =
     \<lparr>urls = us, outputFile = out, verbose = v, retry = r,
      priv_urlIndex = 0, priv_urlPage = Num (Fin (- 1)), priv_proxies = [],
      urlPage = None\<rparr>"

text \<open>
  \<^verbatim>\<open>data.response\<close>: undefined when the request failed, else an object whose
  \<^verbatim>\<open>statusCode\<close> may be missing (the object \<^verbatim>\<open>{}\<close> of the synthetic result).
\<close>

datatype response = Undefined_response | Response "int option"

record fetch_data =
  d_error :: "string option"
  d_url :: string
  d_response :: response
  d_body :: string
  d_singlePage :: bool

record payload =
  p_method :: string
  p_url :: string

text \<open>
  What \<^verbatim>\<open>fetchPage\<close> does at its end: it emits the synthetic result at once, or it hands a
  request to the transport, whose callback will set \<^verbatim>\<open>singlePage\<close> when the flag is true.
\<close>

datatype fetch_result = Emitted fetch_data | Request payload bool

text \<open>\<^verbatim>\<open>xs[i]\<close>: undefined out of range.\<close>

fun nth_opt :: "'a list \<Rightarrow> nat \<Rightarrow> 'a option" where
  "nth_opt [] i = None"
| "nth_opt (x # xs) 0 = Some x"
| "nth_opt (x # xs) (Suc i) = nth_opt xs i"

subsection \<open>\<^verbatim>\<open>fetchPage\<close>\<close>

text \<open>
  The branch on the group of the placeholder: start page, increment, \<^verbatim>\<open>leftPad\<close> and
  \<^verbatim>\<open>reachedEnd\<close>. \<open>cur\<close> is \<^verbatim>\<open>this._urlPage\<close>. Each \<open>split_on \<dots> ! 1\<close> is in range,
  because the separator occurs (lemma \<open>split_on_length\<close> below).
\<close>

definition page_params :: "jsval \<Rightarrow> string \<Rightarrow> jsval \<times> jsval \<times> bool \<times> bool" where
  "page_params cur g =
     (if CHR '':'' \<in> set g then
        (let params = split_on CHR '':'' g ! 1
         in if CHR ''-'' \<in> set params then
              (let startPage = split_on CHR ''-'' params ! 0;
                   inc = split_on CHR ''-'' params ! 1
               in (Str startPage, Str inc,
                   first_char_eq_zero startPage \<and> length startPage > 1, False))
            else if CHR ''/'' \<in> set params then
              (let startPage = split_on CHR ''/'' params ! 0;
                   maxPage = split_on CHR ''/'' params ! 1
               in (Str startPage, Num (Fin 1), False, js_gt cur (Str maxPage)))
            else
              (Num (parseInt_str params), Num (Fin 1),
               starts_with ''0'' params \<and> length params > 1, False))
      else (Num (Fin 1), Num (Fin 1), False, False))"

text \<open>\<^verbatim>\<open>if (leftPad && startPage < 10) startPage = '0' + startPage\<close>\<close>

definition left_pad :: "bool \<Rightarrow> jsval \<Rightarrow> jsval" where
  "left_pad leftPad startPage =
     (if leftPad \<and> js_lt startPage (Num (Fin 10))
      then Str (CHR ''0'' # to_string startPage) else startPage)"

definition synthetic :: "string \<Rightarrow> fetch_data" where
  "synthetic pageUrl =
     \<lparr>d_error = None, d_url = pageUrl, d_response = Response None, d_body = [],
      d_singlePage = False\<rparr>"

text \<open>
  The request, by its method and URL: a \<^verbatim>\<open>POST:\<close> prefix is cut off and selects the
  method.
\<close>

definition payload_of :: "string \<Rightarrow> payload" where
  "payload_of pageUrl =
     (if take 5 pageUrl = ''POST:''
      then \<lparr>p_method = ''POST'', p_url = drop 5 pageUrl\<rparr>
      else \<lparr>p_method = ''GET'', p_url = pageUrl\<rparr>)"

text \<open>
  In the \<^verbatim>\<open>POST:\<close> branch the request also gets \<^verbatim>\<open>form = url.parse(pageUrl, true).query\<close>.
  The module \<^verbatim>\<open>url\<close> belongs to the runtime, so its \<^verbatim>\<open>parse\<close> is a parameter: the query it
  returns, or \<open>Inl\<close> for what it throws (\<^verbatim>\<open>URIError\<close>, for an auth part that cannot be
  decoded). \<open>None\<close> is the request without a form.
\<close>

definition payload_form :: "(string \<Rightarrow> js_error + 'q) \<Rightarrow> string \<Rightarrow> js_error + 'q option" where
  "payload_form url_parse pageUrl =
     (if take 5 pageUrl = ''POST:''
      then (case url_parse (drop 5 pageUrl) of Inl e \<Rightarrow> Inl e | Inr query \<Rightarrow> Inr (Some query))
      else Inr None)"

text \<open>
  The function up to the form of its request. With no source at \<^verbatim>\<open>_urlIndex\<close> the URL is
  undefined and \<^verbatim>\<open>pageUrl.substr\<close> throws.
\<close>

definition fetchPage :: "fetch_state \<Rightarrow> js_error + (fetch_result \<times> fetch_state)" where
  "fetchPage st =
     (case nth_opt (urls st) (priv_urlIndex st) of
        None \<Rightarrow> Inl TypeError
      | Some pageUrl \<Rightarrow>
          (let parts = exec_page pageUrl;
               (startPage, inc, leftPad, reachedEnd) =
                 (case parts of
                    None \<Rightarrow> (Num (Fin 1), Num (Fin 1), False, False)
                  | Some (pre, g, post) \<Rightarrow> page_params (priv_urlPage st) g);
               padded = left_pad leftPad startPage;
               first = js_lt (priv_urlPage st) (Num (Fin 0));
               urlPage1 = (if parts \<noteq> None \<and> first then padded else priv_urlPage st);
               startPage1 = (if parts \<noteq> None then urlPage1 else startPage);
               pageUrl1 = (case parts of
                             None \<Rightarrow> pageUrl
                           | Some m \<Rightarrow> replace_page m (to_string startPage1))
           in if reachedEnd
              then Inr (Emitted (synthetic pageUrl1), st\<lparr>priv_urlPage := urlPage1\<rparr>)
              else
                (let startPage2 =
                       left_pad leftPad (Num (js_add (parseInt startPage1) (parseInt inc)))
                 in Inr (Request (payload_of pageUrl1) (parts = None),
                         st\<lparr>priv_urlPage := startPage2\<rparr>))))"

text \<open>
  The form of the request that \<^verbatim>\<open>fetchPage\<close> makes, or what the call of \<^verbatim>\<open>url.parse\<close>
  throws: with it the function is whole. The URL of a \<^verbatim>\<open>POST\<close> request is the resolved URL
  after its prefix.
\<close>

definition fetchPage_form :: "(string \<Rightarrow> js_error + 'q) \<Rightarrow> fetch_state \<Rightarrow> js_error + 'q option" where
  "fetchPage_form url_parse st =
     (case fetchPage st of
        Inl e \<Rightarrow> Inl e
      | Inr (Emitted data, st1) \<Rightarrow> Inr None
      | Inr (Request p single, st1) \<Rightarrow>
          payload_form url_parse (if p_method p = ''POST'' then ''POST:'' @ p_url p else p_url p))"

subsection \<open>The \<^verbatim>\<open>fetchPage\<close> listener of \<^verbatim>\<open>main\<close>\<close>

text \<open>\<^verbatim>\<open>_this.urls[_this._urlIndex + 1]\<close> as a condition: defined and not the empty string.\<close>

definition has_next :: "fetch_state \<Rightarrow> bool" where
  "has_next st =
     (case nth_opt (urls st) (priv_urlIndex st + 1) of None \<Rightarrow> False | Some u \<Rightarrow> u \<noteq> [])"

definition next_url :: "fetch_state \<Rightarrow> fetch_state" where
  "next_url st = st\<lparr>priv_urlIndex := priv_urlIndex st + 1, priv_urlPage := Num (Fin (- 1))\<rparr>"

text \<open>What the listener calls last: \<^verbatim>\<open>_this.fetchPage()\<close> or \<^verbatim>\<open>save()\<close>.\<close>

datatype next_call = CallFetchPage | CallSave

definition on_fetchPage ::
  "(fetch_data \<Rightarrow> js_error + string list) \<Rightarrow> fetch_state \<Rightarrow> fetch_data
     \<Rightarrow> js_error + (next_call \<times> fetch_state)" where
  "on_fetchPage extract st data =
     (let failed = (if has_next st then (CallFetchPage, next_url st) else (CallSave, st))
      in case d_error data of
           Some e \<Rightarrow> Inr failed
         | None \<Rightarrow>
             (case d_response data of
                Undefined_response \<Rightarrow> Inl TypeError
              | Response code \<Rightarrow>
                  if code = Some 200 then
                    (case extract data of
                       Inl e \<Rightarrow> Inl e
                     | Inr proxies \<Rightarrow>
                         if proxies \<noteq> [] then
                           (let st1 = st\<lparr>priv_proxies := priv_proxies st @ proxies\<rparr>
                            in if d_singlePage data \<and> has_next st1
                               then Inr (CallFetchPage, next_url st1)
                               else if d_singlePage data \<and> \<not> has_next st1
                               then Inr (CallSave, st1)
                               else Inr (CallFetchPage, st1))
                         else if has_next st then Inr (CallFetchPage, next_url st)
                         else Inr (CallSave, st))
                  else Inr failed))"

subsection \<open>The transport and the loop of events\<close>

text \<open>
  The callback of \<^verbatim>\<open>request\<close> gets an error (a failed connection, a timeout) and nothing
  else, or no error, a response with its status code, and the body.
\<close>

datatype reply = Failed string | Replied int string

fun callback :: "payload \<Rightarrow> bool \<Rightarrow> reply \<Rightarrow> fetch_data" where
  "callback p single (Failed e) =
     \<lparr>d_error = Some e, d_url = p_url p, d_response = Undefined_response, d_body = [],
      d_singlePage = single\<rparr>"
| "callback p single (Replied code body) =
     \<lparr>d_error = None, d_url = p_url p, d_response = Response (Some code), d_body = body,
      d_singlePage = single\<rparr>"

datatype event = Transport payload | Synthetic fetch_data

text \<open>
  Where a cycle stands: about to call \<^verbatim>\<open>fetchPage\<close>, about to call \<^verbatim>\<open>save\<close>, or ended by
  an exception that nothing catches. The events are the transport calls and synthetic
  results so far, oldest first.
\<close>

datatype run_state =
  Fetching fetch_state "event list"
| Saving fetch_state "event list"
| Thrown js_error "event list"

text \<open>
  One \<^verbatim>\<open>fetchPage\<close> and the listener's answer to its event. The transport's reply may
  depend on the request and on how many events came before.
\<close>

definition listener ::
  "(fetch_data \<Rightarrow> js_error + string list) \<Rightarrow> fetch_state \<Rightarrow> fetch_data \<Rightarrow> event list
     \<Rightarrow> run_state" where
  "listener extract st data evs =
     (case on_fetchPage extract st data of
        Inl e \<Rightarrow> Thrown e evs
      | Inr (CallFetchPage, st1) \<Rightarrow> Fetching st1 evs
      | Inr (CallSave, st1) \<Rightarrow> Saving st1 evs)"

fun round ::
  "(fetch_data \<Rightarrow> js_error + string list) \<Rightarrow> (nat \<Rightarrow> payload \<Rightarrow> reply) \<Rightarrow> run_state
     \<Rightarrow> run_state" where
  "round extract transport (Fetching st evs) =
     (case fetchPage st of
        Inl e \<Rightarrow> Thrown e evs
      | Inr (Emitted data, st1) \<Rightarrow> listener extract st1 data (evs @ [Synthetic data])
      | Inr (Request p single, st1) \<Rightarrow>
          listener extract st1 (callback p single (transport (length evs) p))
            (evs @ [Transport p]))"
| "round extract transport r = r"

text \<open>
  The same round with the call of \<^verbatim>\<open>url.parse\<close> in it: what that call throws ends the run
  before the request is made.
\<close>

definition round_whole ::
  "(string \<Rightarrow> js_error + 'q) \<Rightarrow> (fetch_data \<Rightarrow> js_error + string list)
     \<Rightarrow> (nat \<Rightarrow> payload \<Rightarrow> reply) \<Rightarrow> run_state \<Rightarrow> run_state" where
  "round_whole url_parse extract transport r =
     (case r of
        Fetching st evs \<Rightarrow>
          (case fetchPage_form url_parse st of
             Inl e \<Rightarrow> Thrown e evs
           | Inr form \<Rightarrow> round extract transport r)
      | _ \<Rightarrow> r)"

definition rounds ::
  "nat \<Rightarrow> (fetch_data \<Rightarrow> js_error + string list) \<Rightarrow> (nat \<Rightarrow> payload \<Rightarrow> reply) \<Rightarrow> run_state
     \<Rightarrow> run_state" where
  "rounds n extract transport r = (round extract transport ^^ n) r"

subsection \<open>\<^verbatim>\<open>saveProxies\<close> and the retry timer\<close>

text \<open>\<^verbatim>\<open>s.replace(pat, repl)\<close> for a string \<open>pat\<close>: the first occurrence only.\<close>

fun find_first :: "string \<Rightarrow> string \<Rightarrow> (string \<times> string) option" where
  "find_first pat [] = (if pat = [] then Some ([], []) else None)"
| "find_first pat (c # cs) =
     (if starts_with pat (c # cs) then Some ([], drop (length pat) (c # cs))
      else (case find_first pat cs of
              None \<Rightarrow> None
            | Some (pre, post) \<Rightarrow> Some (c # pre, post)))"

definition replace_first :: "string \<Rightarrow> string \<Rightarrow> string \<Rightarrow> string" where
  "replace_first pat repl s =
     (case find_first pat s of
        None \<Rightarrow> s
      | Some (pre, post) \<Rightarrow> pre @ get_substitution pre pat post repl @ post)"

text \<open>\<open>now\<close> is \<^verbatim>\<open>new Date().toISOString()\<close>.\<close>

definition dateStamp :: "string \<Rightarrow> string" where
  "dateStamp now = join_with ''-'' (rev (split_on CHR ''-'' (split_on CHR ''T'' now ! 0)))"

text \<open>\<^verbatim>\<open>Array.from(new Set(xs))\<close>: the first occurrence of each element, in order.\<close>

fun set_add_all :: "'a list \<Rightarrow> 'a list \<Rightarrow> 'a list" where
  "set_add_all seen [] = seen"
| "set_add_all seen (x # xs) = set_add_all (if x \<in> set seen then seen else seen @ [x]) xs"

definition array_from_set :: "'a list \<Rightarrow> 'a list" where
  "array_from_set xs = set_add_all [] xs"

text \<open>
  The files are a map from path to text. The result is the files after the write, the
  object, and the number in the line \<^verbatim>\<open>Removing n duplicates\<close> when that line is logged.
\<close>

definition saveProxies ::
  "string \<Rightarrow> (string \<rightharpoonup> string) \<Rightarrow> fetch_state
     \<Rightarrow> (string \<rightharpoonup> string) \<times> fetch_state \<times> nat option" where
  "saveProxies now files st =
     (let outputFile1 = replace_first ''{date}'' (dateStamp now) (outputFile st);
          (proxies, removed) =
            (case files outputFile1 of
               None \<Rightarrow> (priv_proxies st, None)
             | Some text \<Rightarrow>
                 (let origProxies = split_on CHR 0x0A text;
                      merged = priv_proxies st @ origProxies;
                      oldTotal = length merged;
                      unique = array_from_set merged
                  in (unique,
                      if oldTotal - length unique > 0
                      then Some (oldTotal - length unique) else None)))
      in (files(outputFile1 \<mapsto> join_with [CHR 0x0A] proxies),
          st\<lparr>priv_proxies := proxies\<rparr>, removed))"

text \<open>The assignments of the timer's callback, which then calls \<^verbatim>\<open>fetchPage\<close>.\<close>

definition timer_callback :: "fetch_state \<Rightarrow> fetch_state" where
  "timer_callback st =
     st\<lparr>priv_urlIndex := 0, urlPage := Some (Num (Fin (- 1))), priv_proxies := []\<rparr>"

definition retry_set :: "fetch_state \<Rightarrow> bool" where
  "retry_set st = (case retry st of None \<Rightarrow> False | Some r \<Rightarrow> r \<noteq> [])"

text \<open>
  The closure \<^verbatim>\<open>save\<close>: the flush, and with a retry interval the state in which the timer
  will call \<^verbatim>\<open>fetchPage\<close> (\<open>None\<close>: the run ends).
\<close>

definition save ::
  "string \<Rightarrow> (string \<rightharpoonup> string) \<Rightarrow> fetch_state
     \<Rightarrow> (string \<rightharpoonup> string) \<times> nat option \<times> fetch_state \<times> fetch_state option" where
  "save now files st =
     (case saveProxies now files st of
        (files1, st1, removed) \<Rightarrow>
          (files1, removed, st1, if retry_set st1 then Some (timer_callback st1) else None))"

subsection \<open>Patterns of the adapters\<close>

text \<open>ASCII letters to lower case: how a pattern with the flag \<^verbatim>\<open>i\<close> compares.\<close>

definition lower_char :: "char \<Rightarrow> char" where
  "lower_char c =
     (let n = (of_char c :: nat) in if 65 \<le> n \<and> n \<le> 90 then char_of (n + 32) else c)"

definition fold_case :: "bool \<Rightarrow> string \<Rightarrow> string" where
  "fold_case ci s = (if ci then map lower_char s else s)"

text \<open>The largest offset at which \<open>pat\<close> occurs in \<open>s\<close>.\<close>

fun last_occurrence :: "string \<Rightarrow> string \<Rightarrow> nat option" where
  "last_occurrence pat [] = (if pat = [] then Some 0 else None)"
| "last_occurrence pat (c # cs) =
     (case last_occurrence pat cs of
        Some k \<Rightarrow> Some (Suc k)
      | None \<Rightarrow> if starts_with pat (c # cs) then Some 0 else None)"

text \<open>
  A match of \<^verbatim>\<open>(.+)\<close> and the closing text \<open>close\<close> at the head of \<open>s\<close>: the group is
  greedy and stays on its line, so it ends at the last \<open>close\<close> of the line, and it is not
  empty. The result is the group and the offset behind the match.
\<close>

definition group_until :: "bool \<Rightarrow> string \<Rightarrow> string \<Rightarrow> (string \<times> nat) option" where
  "group_until ci close s =
     (let run = takeWhile (\<lambda>c. \<not> line_terminator c) s
      in case last_occurrence (fold_case ci close) (fold_case ci run) of
           None \<Rightarrow> None
         | Some k \<Rightarrow> if k = 0 then None else Some (take k s, k + length close))"

text \<open>
  \<^verbatim>\<open>/open(.+)close/.exec(s)\<close>, with the flag \<^verbatim>\<open>i\<close> when \<open>ci\<close>: the leftmost match; the
  text before it, the group, the text after it.
\<close>

fun exec_between ::
  "bool \<Rightarrow> string \<Rightarrow> string \<Rightarrow> string \<Rightarrow> (string \<times> string \<times> string) option" where
  "exec_between ci opn close [] = None"
| "exec_between ci opn close (c # cs) =
     (let here =
            (if starts_with (fold_case ci opn) (fold_case ci (c # cs))
             then (case group_until ci close (drop (length opn) (c # cs)) of
                     None \<Rightarrow> None
                   | Some (g, n) \<Rightarrow> Some ([], g, drop (length opn + n) (c # cs)))
             else None)
      in case here of
           Some m \<Rightarrow> Some m
         | None \<Rightarrow>
             (case exec_between ci opn close cs of
                None \<Rightarrow> None
              | Some (pre, g, post) \<Rightarrow> Some (c # pre, g, post)))"

text \<open>The group alone: \<^verbatim>\<open>parts[1]\<close>, with \<open>None\<close> for \<^verbatim>\<open>parts === null\<close>.\<close>

definition group_between :: "bool \<Rightarrow> string \<Rightarrow> string \<Rightarrow> string \<Rightarrow> string option" where
  "group_between ci opn close s =
     (case exec_between ci opn close s of None \<Rightarrow> None | Some (pre, g, post) \<Rightarrow> Some g)"

subsection \<open>\<^verbatim>\<open>validateIpAddress\<close>\<close>

definition word_char :: "char \<Rightarrow> bool" where
  "word_char c \<longleftrightarrow>
     (let n = (of_char c :: nat)
      in (48 \<le> n \<and> n \<le> 57) \<or> (65 \<le> n \<and> n \<le> 90) \<or> (97 \<le> n \<and> n \<le> 122) \<or> n = 95)"








subsection \<open>\<^verbatim>\<open>str_rot13\<close> and the base64 decoder of \<^verbatim>\<open>Buffer\<close>\<close>

text \<open>
  \<^verbatim>\<open>String.fromCharCode(s.charCodeAt(0) + (s.toLowerCase() < 'n' ? 13 : -13))\<close> on every
  match of \<^verbatim>\<open>/[a-z]/gi\<close>.
\<close>

definition rot13_char :: "char \<Rightarrow> char" where
  "rot13_char c =
     (let n = (of_char c :: nat)
      in if (65 \<le> n \<and> n \<le> 90) \<or> (97 \<le> n \<and> n \<le> 122)
         then (if (of_char (lower_char c) :: nat) < of_char CHR ''n''
               then char_of (n + 13) else char_of (n - 13))
         else c)"

definition str_rot13 :: "string \<Rightarrow> string" where
  "str_rot13 str = map rot13_char str"

text \<open>
  \<^verbatim>\<open>Buffer.from(s, 'base64').toString()\<close>, as the runtime decodes: both alphabets are read,
  a character of neither is skipped, the first \<^verbatim>\<open>=\<close> ends the input, and a last group of
  two or three characters gives one or two bytes. The bytes are kept as characters:
  the text they make as UTF-8 is the same string while every byte is below 128.
\<close>

definition unbase64 :: "char \<Rightarrow> nat option" where
  "unbase64 c =
     (let n = (of_char c :: nat)
      in if 65 \<le> n \<and> n \<le> 90 then Some (n - 65)
         else if 97 \<le> n \<and> n \<le> 122 then Some (n - 71)
         else if 48 \<le> n \<and> n \<le> 57 then Some (n + 4)
         else if c = CHR ''+'' \<or> c = CHR ''-'' then Some 62
         else if c = CHR ''/'' \<or> c = CHR ''_'' then Some 63
         else None)"

fun sextets_to_bytes :: "nat list \<Rightarrow> nat list" where
  "sextets_to_bytes (a # b # c # d # r) =
     (a * 4 + b div 16) # ((b mod 16) * 16 + c div 4) # ((c mod 4) * 64 + d)
       # sextets_to_bytes r"
| "sextets_to_bytes [a, b, c] = [a * 4 + b div 16, (b mod 16) * 16 + c div 4]"
| "sextets_to_bytes [a, b] = [a * 4 + b div 16]"
| "sextets_to_bytes _ = []"

definition base64_decode :: "string \<Rightarrow> string" where
  "base64_decode s =
     map char_of
       (sextets_to_bytes (List.map_filter unbase64 (takeWhile (\<lambda>c. c \<noteq> CHR ''='') s)))"

subsection \<open>The document as \<^verbatim>\<open>cheerio\<close> and \<^verbatim>\<open>JSON.parse\<close> show it\<close>

text \<open>
  Both are libraries outside the repository, so they are parameters of the extraction.
  An element answers \<^verbatim>\<open>find(sel).text()\<close> and \<^verbatim>\<open>find(sel).html()\<close>, the latter
  with \<open>None\<close> for \<^verbatim>\<open>null\<close> when nothing is selected; a loaded document answers a
  selector with the elements it selects, in document order.
\<close>

record element =
  el_text :: "string \<Rightarrow> string"
  el_html :: "string \<Rightarrow> string option"


text \<open>
  A parsed JSON value; a number is kept as the text \<^verbatim>\<open>String\<close> gives for it. The parser
  is a function to \<open>json option\<close>, \<open>None\<close> when it throws \<^verbatim>\<open>SyntaxError\<close>.
\<close>

datatype json =
  JNull | JBool bool | JNum string | JStr string | JArr "json list" | JObj "(string \<times> json) list"

text \<open>The first exception of a sequence of steps, or all their results.\<close>

fun first_error :: "('e + 'a) list \<Rightarrow> 'e + 'a list" where
  "first_error [] = Inr []"
| "first_error (Inl e # rs) = Inl e"
| "first_error (Inr x # rs) = (case first_error rs of Inl e \<Rightarrow> Inl e | Inr xs \<Rightarrow> Inr (x # xs))"

text \<open>
  The string of a parsed value, as \<^verbatim>\<open>':' + v\<close> and \<^verbatim>\<open>v == 'HTTP'\<close> make it. An object is
  turned into a primitive first: \<^verbatim>\<open>valueOf\<close> gives no primitive (the inherited one returns
  the object, an own one is a parsed value and is not called), and then \<^verbatim>\<open>toString\<close> is
  the inherited one, unless the object has a \<^verbatim>\<open>toString\<close> of its own: that is a parsed
  value, nothing can be called, and the conversion throws \<^verbatim>\<open>TypeError\<close>. An array joins
  the strings of its elements, \<^verbatim>\<open>null\<close> as the empty string, and throws what an element
  throws.
\<close>

fun json_to_string :: "json \<Rightarrow> js_error + string" where
  "json_to_string JNull = Inr ''null''"
| "json_to_string (JBool b) = Inr (if b then ''true'' else ''false'')"
| "json_to_string (JNum t) = Inr t"
| "json_to_string (JStr s) = Inr s"
| "json_to_string (JArr vs) =
     (case first_error (map (\<lambda>v. if v = JNull then Inr [] else json_to_string v) vs) of
        Inl e \<Rightarrow> Inl e
      | Inr ss \<Rightarrow> Inr (join_with '','' ss))"
| "json_to_string (JObj kvs) =
     (if ''toString'' \<in> fst ` set kvs then Inl TypeError else Inr ''[object Object]'')"

text \<open>The same for a property, which may be \<^verbatim>\<open>undefined\<close>.\<close>

definition string_of_property :: "json option \<Rightarrow> js_error + string" where
  "string_of_property v = (case v of None \<Rightarrow> Inr ''undefined'' | Some j \<Rightarrow> json_to_string j)"

text \<open>
  \<^verbatim>\<open>proxy.name\<close> for a parsed value and a name that no prototype has: \<open>Inl\<close> when the
  value is \<^verbatim>\<open>null\<close>, \<open>None\<close> for \<^verbatim>\<open>undefined\<close>. In an object the last pair of a name counts.
\<close>

definition property :: "json \<Rightarrow> string \<Rightarrow> js_error + json option" where
  "property v name =
     (case v of
        JNull \<Rightarrow> Inl TypeError
      | JObj kvs \<Rightarrow> Inr (map_of (rev kvs) name)
      | _ \<Rightarrow> Inr None)"

text \<open>
  \<^verbatim>\<open>v == 'HTTP'\<close>: a string by its text, an array or an object by the string it is turned
  into, which may throw; nothing else is equal to a string that is no number.
\<close>

definition loosely_HTTP :: "json option \<Rightarrow> js_error + bool" where
  "loosely_HTTP v =
     (case v of
        Some (JStr s) \<Rightarrow> Inr (s = ''HTTP'')
      | Some (JArr vs) \<Rightarrow>
          (case json_to_string (JArr vs) of Inl e \<Rightarrow> Inl e | Inr s \<Rightarrow> Inr (s = ''HTTP''))
      | Some (JObj kvs) \<Rightarrow>
          (case json_to_string (JObj kvs) of Inl e \<Rightarrow> Inl e | Inr s \<Rightarrow> Inr (s = ''HTTP''))
      | _ \<Rightarrow> Inr False)"


text \<open>\<^verbatim>\<open>ip + ':' + port\<close>, where \<open>port\<close> is \<open>None\<close> for \<^verbatim>\<open>undefined\<close>.\<close>

definition record_of :: "string \<Rightarrow> string option \<Rightarrow> string" where
  "record_of ip port = ip @ '':'' @ (case port of None \<Rightarrow> ''undefined'' | Some p \<Rightarrow> p)"


subsection \<open>The adapter for hidemyass\<close>

definition css_class_char :: "char \<Rightarrow> bool" where
  "css_class_char c \<longleftrightarrow> word_char c \<or> c = CHR ''-''"

text \<open>
  A match of \<^verbatim>\<open>/\.([a-zA-Z0-9-_]+)\{display\:([\w]+)/i\<close> at the head of the string: the
  class name, the display type, and how many characters the match has.
\<close>

definition style_rule_here :: "string \<Rightarrow> (string \<times> string \<times> nat) option" where
  "style_rule_here s =
     (if starts_with ''.'' s then
        (let cls = takeWhile css_class_char (drop 1 s);
             r1 = dropWhile css_class_char (drop 1 s);
             dt = takeWhile word_char (drop 9 r1)
         in if cls \<noteq> [] \<and> starts_with ''{display:'' (map lower_char r1) \<and> dt \<noteq> []
            then Some (cls, dt, 1 + length cls + 9 + length dt)
            else None)
      else None)"

text \<open>
  \<^verbatim>\<open>style.match(/\<dots>/ig)\<close>, each match with its two groups. \<open>skip\<close> counts the characters
  still inside the match before.
\<close>

fun style_rules :: "nat \<Rightarrow> string \<Rightarrow> (string \<times> string) list" where
  "style_rules skip [] = []"
| "style_rules (Suc skip) (c # cs) = style_rules skip cs"
| "style_rules 0 (c # cs) =
     (case style_rule_here (c # cs) of
        None \<Rightarrow> style_rules 0 cs
      | Some (cls, dt, n) \<Rightarrow> (cls, dt) # style_rules (n - 1) cs)"

text \<open>
  The object \<^verbatim>\<open>classes\<close>: an assignment to \<^verbatim>\<open>__proto__\<close> adds nothing, and a name that
  was never assigned is still truthy when \<^verbatim>\<open>Object.prototype\<close> has it.
\<close>

definition object_prototype_names :: "string list" where
  "object_prototype_names =
     [''constructor'', ''hasOwnProperty'', ''isPrototypeOf'', ''propertyIsEnumerable'',
      ''toLocaleString'', ''toString'', ''valueOf'', ''__proto__'',
      ''__defineGetter__'', ''__defineSetter__'', ''__lookupGetter__'', ''__lookupSetter__'']"

fun style_classes :: "(string \<rightharpoonup> bool) \<Rightarrow> (string \<times> string) list \<Rightarrow> (string \<rightharpoonup> bool)" where
  "style_classes classes [] = classes"
| "style_classes classes ((className, displayType) # rules) =
     style_classes
       (if className = ''__proto__'' then classes
        else classes(className \<mapsto> (map lower_char displayType = ''inline'')))
       rules"

definition class_visible :: "(string \<rightharpoonup> bool) \<Rightarrow> string \<Rightarrow> bool" where
  "class_visible classes cls =
     (case classes cls of Some b \<Rightarrow> b | None \<Rightarrow> cls \<in> set object_prototype_names)"

text \<open>\<^verbatim>\<open>contents.replace(/\s\s+/gm, '')\<close>: \<open>gone\<close> says that the run before is being removed.\<close>

fun strip_space_runs :: "bool \<Rightarrow> string \<Rightarrow> string" where
  "strip_space_runs gone [] = []"
| "strip_space_runs gone [c] = (if is_ws c \<and> gone then [] else [c])"
| "strip_space_runs gone (c # d # cs) =
     (if is_ws c \<and> (gone \<or> is_ws d) then strip_space_runs True (d # cs)
      else c # strip_space_runs False (d # cs))"

text \<open>
  \<^verbatim>\<open>s.replace(/(open.+close)/ig, '')\<close>: every match is cut out, left to right. A match
  has at least one character, so \<open>length s\<close> steps are enough for \<open>s\<close>.
\<close>

fun remove_between :: "nat \<Rightarrow> string \<Rightarrow> string \<Rightarrow> string \<Rightarrow> string" where
  "remove_between 0 opn close s = s"
| "remove_between (Suc n) opn close s =
     (case exec_between True opn close s of
        None \<Rightarrow> s
      | Some (pre, g, post) \<Rightarrow> pre @ remove_between n opn close post)"

text \<open>
  One step of the loop over \<^verbatim>\<open>contents.split('>')\<close>, which takes the pieces in pairs:
  \<open>current\<close> and, when there is one, \<open>nextHtml\<close>. The result is what the step adds to
  \<^verbatim>\<open>ip\<close>; an undefined \<^verbatim>\<open>next\<close> is added as the text \<^verbatim>\<open>undefined\<close>.
\<close>

definition hidemyass_piece :: "(string \<rightharpoonup> bool) \<Rightarrow> string \<Rightarrow> string option \<Rightarrow> string" where
  "hidemyass_piece classes current nextHtml =
     (let next = (case nextHtml of
                    None \<Rightarrow> ''undefined''
                  | Some h \<Rightarrow> if h = [] then ''undefined'' else split_on CHR ''<'' h ! 0);
          cls = group_between True ''class=\"'' ''\"'' current
      in (if \<not> starts_with ''<'' current then split_on CHR ''<'' current ! 0 else [])
         @ (if contains ''inline'' current then next else [])
         @ (case cls of
              None \<Rightarrow> []
            | Some c \<Rightarrow> if class_visible classes c \<or> all_digits 10 c then next else []))"

fun hidemyass_walk :: "(string \<rightharpoonup> bool) \<Rightarrow> string list \<Rightarrow> string" where
  "hidemyass_walk classes [] = []"
| "hidemyass_walk classes [current] = hidemyass_piece classes current None"
| "hidemyass_walk classes (current # nextHtml # rest) =
     hidemyass_piece classes current (Some nextHtml) @ hidemyass_walk classes rest"

text \<open>
  A row of the table. \<^verbatim>\<open>style.match\<close> gives \<^verbatim>\<open>null\<close> when no rule matches, and the
  test \<^verbatim>\<open>!styles.length\<close> that follows throws on it; \<^verbatim>\<open>html()\<close> gives \<^verbatim>\<open>null\<close> when the
  cell has no span, and \<^verbatim>\<open>contents.replace\<close> throws on that.
\<close>

definition hidemyass_row :: "element \<Rightarrow> js_error + string list" where
  "hidemyass_row a =
     (let style = el_text a ''td:nth-child(2)>span>style'';
          port = trim (el_text a ''td:nth-child(3)'');
          styles = style_rules 0 style
      in if styles = [] then Inl TypeError
         else
           (let classes = style_classes Map.empty styles
            in case el_html a ''td:nth-child(2)>span'' of
                 None \<Rightarrow> Inl TypeError
               | Some contents \<Rightarrow>
                   (let c1 = strip_space_runs False contents;
                        c2 = filter (\<lambda>c. \<not> line_terminator c) c1;
                        c3 = remove_between (length c2) ''<style>'' ''</style>'' c2;
                        ip = hidemyass_walk classes (split_on CHR ''>'' c3)
                    in Inr [record_of ip (Some port)])))"

subsection \<open>The other adapters\<close>



text \<open>
  An element of the parsed array. \<^verbatim>\<open>validateIpAddress(proxy.ip)\<close> calls \<^verbatim>\<open>ip.match\<close>,
  which only a string has; \<^verbatim>\<open>proxy.ip + ':' + proxy.port\<close> turns the port into a string.
\<close>

definition nordvpn_item :: "json \<Rightarrow> js_error + string list" where
  "nordvpn_item proxy =
     (case property proxy ''type'' of
        Inl e \<Rightarrow> Inl e
      | Inr t \<Rightarrow>
          (case loosely_HTTP t of
             Inl e \<Rightarrow> Inl e
           | Inr False \<Rightarrow> Inr []
           | Inr True \<Rightarrow>
               (case property proxy ''ip'' of
                  Inl e \<Rightarrow> Inl e
                | Inr (Some (JStr ip)) \<Rightarrow>
                    (case property proxy ''port'' of
                       Inl e \<Rightarrow> Inl e
                     | Inr port \<Rightarrow>
                         (case string_of_property port of
                            Inl e \<Rightarrow> Inl e
                          | Inr p \<Rightarrow> Inr [ip @ '':'' @ p]))
                | Inr _ \<Rightarrow> Inl TypeError)))"










subsection \<open>\<^verbatim>\<open>extractProxies\<close>\<close>


subsection \<open>Notions of the specification\<close>

text \<open>A fetch that failed: a transport error (a timeout is one) or a status other than 200.\<close>

fun failure :: "reply \<Rightarrow> bool" where
  "failure (Failed e) = True"
| "failure (Replied code body) = (code \<noteq> 200)"


text \<open>The template with one strided placeholder and no other brace.\<close>

definition strided_template :: "string \<Rightarrow> string \<Rightarrow> string \<Rightarrow> string \<Rightarrow> string" where
  "strided_template pre a b post = pre @ ''{page:'' @ a @ ''-'' @ b @ ''}'' @ post"

text \<open>The start value is written with a leading zero and more than one digit.\<close>

definition zero_padded :: "string \<Rightarrow> bool" where
  "zero_padded a \<longleftrightarrow> 1 < length a \<and> hd a = CHR ''0''"

text \<open>
  The page text of the specification for the call number \<open>k + 1\<close> of \<^verbatim>\<open>{page:A-B}\<close>: the
  value \<open>A + k * B\<close> in decimal, in the two-digit form, with a zero in front, when the
  start value is written with a leading zero and the value is below 10.
\<close>

definition strided_page :: "string \<Rightarrow> string \<Rightarrow> nat \<Rightarrow> string" where
  "strided_page a b k =
     (let v = digits_value 10 0 a + k * digits_value 10 0 b
      in if zero_padded a \<and> v < 10 then CHR ''0'' # show_nat v else show_nat v)"

text \<open>
  The page text that \<^verbatim>\<open>fetchPage\<close> substitutes in the call number \<open>k + 1\<close> of
  \<^verbatim>\<open>{page:A-B}\<close>, as the lemmas on the strided source show: the first call takes the start
  value as it is written and puts the zero of \<^verbatim>\<open>leftPad\<close> in front of that.
\<close>

definition sent_page :: "string \<Rightarrow> string \<Rightarrow> nat \<Rightarrow> string" where
  "sent_page a b k =
     (let v = digits_value 10 0 a + k * digits_value 10 0 b;
          written = (if k = 0 then a else show_nat v)
      in if zero_padded a \<and> v < 10 then CHR ''0'' # written else written)"

text \<open>
  Base64 as the specification means it (RFC 4648, with padding): three bytes give four
  characters of the alphabet; a last group of one or two bytes gives two or three, and
  \<^verbatim>\<open>=\<close> fills the group up. A string is the list of its bytes.
\<close>

definition b64_char :: "nat \<Rightarrow> char" where
  "b64_char n =
     (if n < 26 then char_of (65 + n)
      else if n < 52 then char_of (71 + n)
      else if n < 62 then char_of (n - 4)
      else if n = 62 then CHR ''+'' else CHR ''/'')"

fun bytes_to_sextets :: "nat list \<Rightarrow> nat list" where
  "bytes_to_sextets (a # b # c # r) =
     a div 4 # ((a mod 4) * 16 + b div 16) # ((b mod 16) * 4 + c div 64) # c mod 64
       # bytes_to_sextets r"
| "bytes_to_sextets [a, b] = [a div 4, (a mod 4) * 16 + b div 16, (b mod 16) * 4]"
| "bytes_to_sextets [a] = [a div 4, (a mod 4) * 16]"
| "bytes_to_sextets [] = []"

definition base64_encode :: "string \<Rightarrow> string" where
  "base64_encode s =
     map b64_char (bytes_to_sextets (map of_char s))
       @ replicate ((3 - length s mod 3) mod 3) CHR ''=''"

text \<open>The path of the output file.\<close>

definition output_path :: "string \<Rightarrow> fetch_state \<Rightarrow> string" where
  "output_path now st = replace_first ''{date}'' (dateStamp now) (outputFile st)"

text \<open>
  Rot13 as the specification means it: a letter moves 13 places on in its alphabet of
  26, round the end, and keeps its case; every other character stays.
\<close>

definition rotate13 :: "nat \<Rightarrow> nat \<Rightarrow> nat" where
  "rotate13 first n = first + (n - first + 13) mod 26"

definition rot13_letter :: "char \<Rightarrow> char" where
  "rot13_letter c =
     (let n = (of_char c :: nat)
      in if 97 \<le> n \<and> n \<le> 122 then char_of (rotate13 97 n)
         else if 65 \<le> n \<and> n \<le> 90 then char_of (rotate13 65 n)
         else c)"

definition rot13 :: "string \<Rightarrow> string" where
  "rot13 s = map rot13_letter s"




subsection \<open>Example runs\<close>

definition gather_france :: fetch_state where
  "gather_france =
     Fetch [''POST:http://gatherproxy.com/proxylist/country/?Country=france&PageIdx:{page:1/3}'',
            ''http://www.httptunnel.ge/ProxyListForFree.aspx'']
       ''proxies_{date}.txt'' False None"

definition samair :: fetch_state where
  "samair =
     Fetch [''http://www.samair.ru/proxy/proxy-{page:01-1}.htm''] ''proxies_{date}.txt'' False None"

definition same_record :: "fetch_data \<Rightarrow> js_error + string list" where
  "same_record d = Inr [''1.2.3.4:80'']"

definition always_ok :: "nat \<Rightarrow> payload \<Rightarrow> reply" where
  "always_ok n p = Replied 200 ''<html/>''"


definition unclosed :: fetch_state where
  "unclosed =
     Fetch [''http://h/list?p={page:1'', ''http://www.us-proxy.org/'']
       ''proxies_{date}.txt'' False None"

definition twice_listed :: fetch_state where
  "twice_listed =
     Fetch [''http://www.us-proxy.org/'', ''http://www.us-proxy.org/uk-proxy.html'']
       ''proxies_{date}.txt'' False None"

definition paged :: fetch_state where
  "paged = Fetch [''http://h/{page}''] ''proxies_{date}.txt'' False (Some ''120'')"

definition first_page_only :: "fetch_data \<Rightarrow> js_error + string list" where
  "first_page_only d = Inr (if d_url d = ''http://h/1'' then [''1.2.3.4:80''] else [])"

definition today :: string where
  "today = ''2026-11-03T10:00:00.000Z''"






definition samair_plain :: fetch_state where
  "samair_plain =
     Fetch [''http://www.samair.ru/proxy/proxy-{page:01}.htm''] ''proxies_{date}.txt'' False None"

section \<open>Properties\<close>

subsection \<open>Frame lemmas of the loop\<close>

lemma nth_opt_eq: "nth_opt xs i = (if i < length xs then Some (xs ! i) else None)"
  by (induction xs i rule: nth_opt.induct) auto

lemma fetchPage_frame:
  "fetchPage st = Inr (r, st1) \<Longrightarrow> st1 = st\<lparr>priv_urlPage := priv_urlPage st1\<rparr>"
  by (auto simp: fetchPage_def Let_def split: option.splits prod.splits if_splits)





lemma rounds_Saving [simp]: "rounds n extract transport (Saving st evs) = Saving st evs"
  by (induction n) (simp_all add: rounds_def)

lemma rounds_Thrown [simp]: "rounds n extract transport (Thrown e evs) = Thrown e evs"
  by (induction n) (simp_all add: rounds_def)


subsection \<open>A failed fetch\<close>

text \<open>
  C4. When a request ends in a transport error (a timeout is one) or in a status other
  than 200, the listener leaves the remaining pages of the source: with a further source
  in the list it moves to that one, the page state back at \<open>-1\<close>, and only with none
  left it goes to the flush; nothing is thrown. The sources are non-empty templates (the
  listener reads an empty string at the next index as the end of the list).
\<close>

theorem transport_failure_advances:
  assumes "\<forall>u\<in>set (urls st). u \<noteq> []"
    and "fetchPage st = Inr (Request p single, st1)"
    and "failure (transport (length evs) p)"
  shows "round extract transport (Fetching st evs) =
           (if priv_urlIndex st + 1 < length (urls st)
            then Fetching (st\<lparr>priv_urlIndex := priv_urlIndex st + 1,
                                priv_urlPage := Num (Fin (- 1))\<rparr>)
            else Saving st1) (evs @ [Transport p])"
proof -
  from assms(2) have fr: "st1 = st\<lparr>priv_urlPage := priv_urlPage st1\<rparr>"
    by (rule fetchPage_frame)
  have n: "next_url st1 =
             st\<lparr>priv_urlIndex := priv_urlIndex st + 1, priv_urlPage := Num (Fin (- 1))\<rparr>"
    by (subst fr) (simp add: next_url_def)
  have h: "has_next st1 \<longleftrightarrow> priv_urlIndex st + 1 < length (urls st)"
    using assms(1) by (subst fr) (simp add: has_next_def nth_opt_eq)
  show ?thesis
    using assms(3)
    by (cases "transport (length evs) p")
       (simp_all add: assms(2) listener_def on_fetchPage_def h n)
qed

theorem transport_failure_advances_witness:
  "round (\<lambda>d. Inr []) (\<lambda>n p. Failed ''ETIMEDOUT'')
     (Fetching (Fetch [''http://a/{page}'', ''http://b/''] ''out.txt'' False None) []) =
   Fetching ((Fetch [''http://a/{page}'', ''http://b/''] ''out.txt'' False None)
               \<lparr>priv_urlIndex := 1\<rparr>)
     [Transport \<lparr>p_method = ''GET'', p_url = ''http://a/1''\<rparr>]"
proof -
  let ?st = "Fetch [''http://a/{page}'', ''http://b/''] ''out.txt'' False None"
  have a: "\<forall>u\<in>set (urls ?st). u \<noteq> []"
    by (simp add: Fetch_def)
  have b: "fetchPage ?st =
             Inr (Request \<lparr>p_method = ''GET'', p_url = ''http://a/1''\<rparr> False,
                  ?st\<lparr>priv_urlPage := Num (Fin 2)\<rparr>)"
    by code_simp
  have c: "failure ((\<lambda>n p. Failed ''ETIMEDOUT'') (length ([] :: event list))
             \<lparr>p_method = ''GET'', p_url = ''http://a/1''\<rparr>)"
    by simp
  from transport_failure_advances[OF a b c, of "\<lambda>d. Inr []"] show ?thesis
    by (simp add: Fetch_def)
qed

subsection \<open>A source without placeholder\<close>





subsection \<open>Decimal digit strings\<close>

lemma is_digit10_iff: "is_digit 10 c \<longleftrightarrow> 48 \<le> (of_char c :: nat) \<and> (of_char c :: nat) \<le> 57"
  by (auto simp: is_digit_def digit_of_def Let_def split: option.splits if_splits)

lemma digit_of10: "is_digit 10 c \<Longrightarrow> digit_of 10 c = Some (of_char c - 48)"
  by (auto simp: is_digit_def digit_of_def Let_def split: option.splits if_splits)

lemma is_digit10_not_ws: "is_digit 10 c \<Longrightarrow> \<not> is_ws c"
  by (auto simp: is_digit10_iff is_ws_def)

lemma is_digit10_not_lt: "is_digit 10 c \<Longrightarrow> \<not> line_terminator c"
  by (auto simp: is_digit10_iff line_terminator_def)

lemma is_digit10_neq:
  assumes "is_digit 10 c"
  shows "c \<noteq> CHR ''-''" "c \<noteq> CHR ''+''" "c \<noteq> CHR ''/''" "c \<noteq> CHR '':''" "c \<noteq> CHR ''$''"
    "c \<noteq> CHR ''x''" "c \<noteq> CHR ''X''" "c \<noteq> CHR ''o''" "c \<noteq> CHR ''O''" "c \<noteq> CHR ''b''" "c \<noteq> CHR ''B''"
    "c \<noteq> CHR ''.''" "c \<noteq> CHR ''I''" "c \<noteq> CHR ''}''" "c \<noteq> CHR ''{''" "c \<noteq> CHR ''P''"
  using assms by (auto simp: is_digit10_iff)

lemma all_digits_Cons: "all_digits r (c # cs) \<longleftrightarrow> is_digit r c \<and> (cs = [] \<or> all_digits r cs)"
  by (auto simp: all_digits_def)

lemma all_digits_set: "all_digits r s \<Longrightarrow> c \<in> set s \<Longrightarrow> is_digit r c"
  by (auto simp: all_digits_def list_all_iff)

lemma all_digits_takeWhile: "all_digits r s \<Longrightarrow> takeWhile (is_digit r) s = s"
  by (auto simp: all_digits_def list_all_iff)

lemma all_digits_dropWhile: "all_digits r s \<Longrightarrow> dropWhile (is_digit r) s = []"
  by (auto simp: all_digits_def list_all_iff)

lemma digits_no_ws: "all_digits 10 s \<Longrightarrow> dropWhile is_ws s = s"
  by (cases s) (auto simp: all_digits_def is_digit10_not_ws)

lemma digits_trim: assumes "all_digits 10 s" shows "trim s = s"
proof -
  from assms have "s \<noteq> []" and "is_digit 10 (last s)"
    by (auto simp: all_digits_def list_all_iff)
  then have "dropWhile is_ws (rev s) = rev s"
    by (cases "rev s") (auto simp: is_digit10_not_ws last_rev[symmetric] simp del: last_rev)
  then show ?thesis using assms by (simp add: trim_def digits_no_ws)
qed

lemma digits_no_prefix:
  assumes "all_digits 10 s"
  shows "\<not> starts_with ''-'' s" "\<not> starts_with ''+'' s" "\<not> starts_with ''0x'' s" "\<not> starts_with ''0X'' s"
    "\<not> starts_with ''0o'' s" "\<not> starts_with ''0O'' s" "\<not> starts_with ''0b'' s" "\<not> starts_with ''0B'' s"
    "s \<noteq> ''Infinity''"
proof -
  have *: "\<And>c. c \<in> set s \<Longrightarrow> is_digit 10 c" using assms by (rule all_digits_set)
  show "\<not> starts_with ''-'' s" "\<not> starts_with ''+'' s" "s \<noteq> ''Infinity''"
    using * by (cases s; auto dest: is_digit10_neq)+
  show "\<not> starts_with ''0x'' s" "\<not> starts_with ''0X'' s"
    "\<not> starts_with ''0o'' s" "\<not> starts_with ''0O'' s" "\<not> starts_with ''0b'' s" "\<not> starts_with ''0B'' s"
    using * by (cases s; cases "tl s"; auto dest: is_digit10_neq)+
qed

lemma parseInt_digits:
  assumes "all_digits 10 s"
  shows "parseInt_str s = Fin (int (digits_value 10 0 s))"
proof -
  from assms have ne: "s \<noteq> []" by (simp add: all_digits_def)
  show ?thesis
    using ne by (simp add: parseInt_str_def Let_def digits_no_ws[OF assms] digits_no_prefix[OF assms]
        all_digits_takeWhile[OF assms])
qed

lemma string_to_number_digits:
  assumes "all_digits 10 s"
  shows "string_to_number s = XFin (of_nat (digits_value 10 0 s))"
proof -
  from assms have ne: "s \<noteq> []" by (simp add: all_digits_def)
  have u: "unsigned_decimal s = XFin (of_nat (digits_value 10 0 s))"
    using ne by (simp add: unsigned_decimal_def Let_def digits_no_prefix[OF assms]
        all_digits_takeWhile[OF assms] all_digits_dropWhile[OF assms] scale10_def)
  show ?thesis
    using ne by (simp add: string_to_number_def Let_def digits_trim[OF assms] digits_no_prefix[OF assms] u)
qed

lemma digit_char_digit: "d < 10 \<Longrightarrow> digit_of 10 (digit_char d) = Some d"
proof -
  assume d: "d < 10"
  have "(of_char (char_of (48 + d)) :: nat) = 48 + d"
    using d by simp
  then show ?thesis using d
    by (simp add: digit_of_def digit_char_def Let_def)
qed

lemma digits_value_append:
  "list_all (is_digit r) xs \<Longrightarrow>
     digits_value r acc (xs @ ys) = digits_value r (digits_value r acc xs) ys"
  by (induction xs arbitrary: acc) (auto simp: is_digit_def split: option.splits)

lemma show_nat_digits: "all_digits 10 (show_nat n)"
proof (induction n rule: show_nat.induct)
  case (1 n)
  show ?case
  proof (cases "n < 10")
    case True
    then show ?thesis
      by (subst show_nat.simps) (simp add: all_digits_def is_digit_def digit_char_digit)
  next
    case False
    with 1 have "all_digits 10 (show_nat (n div 10))" by simp
    moreover have "is_digit 10 (digit_char (n mod 10))"
      by (simp add: is_digit_def digit_char_digit)
    ultimately show ?thesis using False
      by (subst show_nat.simps) (simp add: all_digits_def)
  qed
qed

lemma show_nat_value: "digits_value 10 0 (show_nat n) = n"
proof (induction n rule: show_nat.induct)
  case (1 n)
  show ?case
  proof (cases "n < 10")
    case True
    then show ?thesis
      by (subst show_nat.simps) (simp add: digit_char_digit)
  next
    case False
    with 1 have ih: "digits_value 10 0 (show_nat (n div 10)) = n div 10" by simp
    have la: "list_all (is_digit 10) (show_nat (n div 10))"
      using show_nat_digits[of "n div 10"] by (simp add: all_digits_def)
    show ?thesis using False
      by (subst show_nat.simps) (simp add: digits_value_append[OF la] ih digit_char_digit)
  qed
qed

lemma parseInt_show_nat: "parseInt_str (show_nat n) = Fin (int n)"
  by (simp add: parseInt_digits[OF show_nat_digits] show_nat_value)

lemma parseInt_Fin_nat: "parseInt (Num (Fin (int n))) = Fin (int n)"
  by (simp add: parseInt_def show_int_def parseInt_show_nat)

lemma get_substitution_plain:
  "CHR ''$'' \<notin> set r \<Longrightarrow> get_substitution pre m post r = r"
  by (induction pre m post r rule: get_substitution.induct) auto

lemma digits_no_dollar: "all_digits 10 s \<Longrightarrow> CHR ''$'' \<notin> set s"
  by (auto dest: all_digits_set is_digit10_neq)

lemma split_on_notin: "c \<notin> set u \<Longrightarrow> split_on c u = [u]"
  by (induction u) auto

lemma split_on_append: "c \<notin> set u \<Longrightarrow> split_on c (u @ c # v) = u # split_on c v"
  by (induction u) auto

lemma split_on_nonempty: "split_on c s \<noteq> []"
  by (induction s) (auto split: list.splits)

lemma split_on_length: "c \<in> set s \<Longrightarrow> 2 \<le> length (split_on c s)"
proof (induction s)
  case Nil
  then show ?case by simp
next
  case (Cons x xs)
  then show ?case
    using split_on_nonempty[of c xs]
    by (cases "split_on c xs") (auto split: list.splits)
qed

subsection \<open>The pattern on a template with one placeholder\<close>

lemma takeWhile_append_stop:
  "\<forall>x\<in>set xs. P x \<Longrightarrow> \<not> P y \<Longrightarrow> takeWhile P (xs @ y # ys) = xs"
  by (induction xs) auto

lemma match_page_here_placeholder:
  assumes g: "\<forall>c\<in>set g. \<not> line_terminator c" and post: "CHR ''}'' \<notin> set post"
  shows "match_page_here (''{page'' @ g @ ''}'' @ post) = Some (g, post)"
proof -
  let ?P = "\<lambda>c. \<not> line_terminator c"
  let ?rest = "g @ CHR ''}'' # post"
  let ?run = "g @ CHR ''}'' # takeWhile ?P post"
  have nl: "?P (CHR ''}'')" by (simp add: line_terminator_def)
  have run: "takeWhile ?P ?rest = ?run"
    using g nl by (simp add: takeWhile_append)
  have "\<forall>x\<in>set (rev (takeWhile ?P post)). x \<noteq> CHR ''}''"
    using post by (auto dest: set_takeWhileD)
  then have "takeWhile (\<lambda>c. c \<noteq> CHR ''}'') (rev (takeWhile ?P post) @ CHR ''}'' # rev g)
               = rev (takeWhile ?P post)"
    by (intro takeWhile_append_stop) auto
  then have tail: "rev (takeWhile (\<lambda>c. c \<noteq> CHR ''}'') (rev ?run)) = takeWhile ?P post"
    by simp
  have len: "length ?run - length (takeWhile ?P post) - 1 = length g" by simp
  have drop: "drop (length ?run) ?rest = dropWhile ?P post"
    by (simp add: dropWhile_eq_drop)
  have st: "starts_with ''{page'' (''{page'' @ g @ ''}'' @ post)" by simp
  have d5: "drop 5 (''{page'' @ g @ ''}'' @ post) = ?rest" by simp
  show ?thesis
    unfolding match_page_here_def
    apply (simp only: st d5 if_True Let_def run tail len drop)
    apply simp
    done
qed

lemma match_page_here_other: "c \<noteq> CHR ''{'' \<Longrightarrow> match_page_here (c # cs) = None"
  by (simp add: match_page_here_def)

lemma exec_page_skip:
  "CHR ''{'' \<notin> set pre \<Longrightarrow> s \<noteq> [] \<Longrightarrow>
     exec_page (pre @ s) = (case exec_page s of None \<Rightarrow> None
                            | Some (p, g, post) \<Rightarrow> Some (pre @ p, g, post))"
  by (induction pre) (auto simp: match_page_here_other split: option.splits)

lemma exec_page_placeholder:
  assumes "CHR ''{'' \<notin> set pre" and "\<forall>c\<in>set g. \<not> line_terminator c"
    and "CHR ''}'' \<notin> set post"
  shows "exec_page (pre @ ''{page'' @ g @ ''}'' @ post) = Some (pre, g, post)"
proof -
  have "exec_page (''{page'' @ g @ ''}'' @ post) = Some ([], g, post)"
    using match_page_here_placeholder[OF assms(2,3)] by simp
  then show ?thesis
    using exec_page_skip[OF assms(1), of "''{page'' @ g @ ''}'' @ post"] by simp
qed

subsection \<open>\<^verbatim>\<open>{page:A/B}\<close>\<close>

lemma digits_notin:
  assumes "all_digits 10 s"
  shows "CHR '':'' \<notin> set s" "CHR ''-'' \<notin> set s" "CHR ''/'' \<notin> set s" "CHR ''}'' \<notin> set s"
    "\<forall>c\<in>set s. \<not> line_terminator c"
  using assms by (auto dest: all_digits_set is_digit10_neq is_digit10_not_lt)



lemma js_lt_Fin: "js_lt (Num (Fin m)) (Num (Fin n)) \<longleftrightarrow> m < n"
  by simp




lemma round_good:
  assumes fp: "fetchPage st = Inr (Request p False, st1)"
    and ok: "\<forall>k p. \<exists>body. transport k p = Replied 200 body"
    and ex: "\<forall>d. \<exists>ps. extract d = Inr ps \<and> ps \<noteq> []"
  shows "\<exists>ps. round extract transport (Fetching st evs) =
           Fetching (st1\<lparr>priv_proxies := ps\<rparr>) (evs @ [Transport p])"
proof -
  obtain body where body: "transport (length evs) p = Replied 200 body"
    using ok by blast
  obtain ps where ps: "extract (callback p False (Replied 200 body)) = Inr ps" "ps \<noteq> []"
    using ex by blast
  have "round extract transport (Fetching st evs) =
          Fetching (st1\<lparr>priv_proxies := priv_proxies st1 @ ps\<rparr>) (evs @ [Transport p])"
    using ps by (simp add: fp body listener_def on_fetchPage_def)
  then show ?thesis by blast
qed





subsection \<open>\<^verbatim>\<open>{page:A-B}\<close>\<close>

lemma zero_char_value: "is_digit 10 c \<Longrightarrow> string_to_number [c] = XFin 0 \<longleftrightarrow> c = CHR ''0''"
proof -
  assume c: "is_digit 10 c"
  then have d: "all_digits 10 [c]" by (simp add: all_digits_def)
  have r: "48 \<le> (of_char c :: nat)" "(of_char c :: nat) \<le> 57" using c by (simp_all add: is_digit10_iff)
  have "(of_char c :: nat) - 48 = 0 \<longleftrightarrow> c = CHR ''0''"
  proof
    assume "(of_char c :: nat) - 48 = 0"
    with r have "(of_char c :: nat) = of_char (CHR ''0'')" by simp
    then show "c = CHR ''0''" by (simp only: of_char_eq_iff)
  qed simp
  then show ?thesis
    by (simp add: string_to_number_digits[OF d] digit_of10[OF c])
qed

lemma first_char_eq_zero_digits:
  "all_digits 10 a \<Longrightarrow> first_char_eq_zero a \<and> 1 < length a \<longleftrightarrow> zero_padded a"
  by (cases a) (auto simp: first_char_eq_zero_def zero_padded_def all_digits_def zero_char_value)

lemma page_params_strided:
  assumes a: "all_digits 10 a" and b: "all_digits 10 b"
  shows "page_params cur (CHR '':'' # a @ CHR ''-'' # b) = (Str a, Str b, zero_padded a, False)"
proof -
  have s1: "split_on CHR '':'' (a @ CHR ''-'' # b) = [a @ CHR ''-'' # b]"
    using digits_notin[OF a] digits_notin[OF b] by (intro split_on_notin) simp
  have s2: "split_on CHR ''-'' (a @ CHR ''-'' # b) = [a, b]"
    using split_on_append[of "CHR ''-''" a b] split_on_notin[of "CHR ''-''" b]
      digits_notin[OF a] digits_notin[OF b] by simp
  show ?thesis
    unfolding page_params_def
    using first_char_eq_zero_digits[OF a] by (simp add: s1 s2 Let_def)
qed

lemma exec_page_strided:
  assumes "CHR ''{'' \<notin> set pre" "CHR ''}'' \<notin> set post" "all_digits 10 a" "all_digits 10 b"
  shows "exec_page (strided_template pre a b post) = Some (pre, CHR '':'' # a @ CHR ''-'' # b, post)"
proof -
  have lt: "\<forall>c\<in>set ('':'' @ a @ ''-'' @ b). \<not> line_terminator c"
    using digits_notin(5)[OF assms(3)] digits_notin(5)[OF assms(4)]
    by (auto simp: line_terminator_def)
  from exec_page_placeholder[OF assms(1) lt assms(2)] show ?thesis
    by (simp add: strided_template_def)
qed

text \<open>The page state after a call that computed the value \<open>v\<close>.\<close>

lemma left_pad_Fin:
  "left_pad lp (Num (Fin (int v))) =
     (if lp \<and> v < 10 then Str (CHR ''0'' # show_nat v) else Num (Fin (int v)))"
proof -
  have "(of_int (int v) :: rat) < 10 \<longleftrightarrow> v < 10"
    by (metis of_int_of_nat_eq of_nat_less_iff of_nat_numeral)
  then show ?thesis by (simp add: left_pad_def show_int_def)
qed

lemma zero_digits: "all_digits 10 s \<Longrightarrow> all_digits 10 (CHR ''0'' # s)"
  by (simp add: all_digits_def is_digit10_iff)

lemma zero_digits_value: "digits_value 10 0 (CHR ''0'' # s) = digits_value 10 0 s"
proof -
  have "digit_of 10 (CHR ''0'') = Some 0" by code_simp
  then show ?thesis by simp
qed

lemma padded_state:
  "to_string (left_pad lp (Num (Fin (int v)))) = (if lp \<and> v < 10 then CHR ''0'' # show_nat v else show_nat v)"
  "parseInt (left_pad lp (Num (Fin (int v)))) = Fin (int v)"
  "\<not> js_lt (left_pad lp (Num (Fin (int v)))) (Num (Fin 0))"
proof -
  have d: "all_digits 10 (CHR ''0'' # show_nat v)" by (rule zero_digits[OF show_nat_digits])
  show "to_string (left_pad lp (Num (Fin (int v)))) = (if lp \<and> v < 10 then CHR ''0'' # show_nat v else show_nat v)"
    by (simp add: left_pad_Fin show_int_def)
  show "parseInt (left_pad lp (Num (Fin (int v)))) = Fin (int v)"
    by (simp add: left_pad_Fin parseInt_Fin_nat)
       (simp add: parseInt_def parseInt_digits[OF d] zero_digits_value show_nat_value
          del: digits_value.simps)
  show "\<not> js_lt (left_pad lp (Num (Fin (int v)))) (Num (Fin 0))"
    by (simp add: left_pad_Fin string_to_number_digits[OF d] del: digits_value.simps)
qed


lemma fetchPage_strided_first:
  assumes src: "nth_opt (urls st) (priv_urlIndex st) = Some (strided_template pre a b post)"
    and pre: "CHR ''{'' \<notin> set pre" and post: "CHR ''}'' \<notin> set post"
    and a: "all_digits 10 a" and b: "all_digits 10 b"
    and fresh: "priv_urlPage st = Num (Fin (- 1))"
  shows "fetchPage st =
           Inr (Request (payload_of (pre @ sent_page a b 0 @ post)) False,
                st\<lparr>priv_urlPage := left_pad (zero_padded a)
                       (Num (Fin (int (digits_value 10 0 a + digits_value 10 0 b))))\<rparr>)"
proof -
  let ?A = "digits_value 10 0 a"
  have lt: "js_lt (Str a) (Num (Fin 10)) \<longleftrightarrow> ?A < 10"
  proof -
    have "(of_nat ?A :: rat) < 10 \<longleftrightarrow> ?A < 10"
      by (metis of_nat_less_iff of_nat_numeral)
    then show ?thesis by (simp add: string_to_number_digits[OF a])
  qed
  have pad: "left_pad (zero_padded a) (Str a) = Str (sent_page a b 0)"
    by (simp add: left_pad_def lt sent_page_def del: js_lt.simps)
  have dig: "all_digits 10 (sent_page a b 0)"
    using a by (simp add: sent_page_def zero_digits)
  have val: "digits_value 10 0 (sent_page a b 0) = ?A"
    by (simp add: sent_page_def zero_digits_value del: digits_value.simps)
  have nd: "CHR ''$'' \<notin> set (sent_page a b 0)"
    by (rule digits_no_dollar[OF dig])
  show ?thesis
    unfolding fetchPage_def
    by (simp add: src exec_page_strided[OF pre post a b] page_params_strided[OF a b] fresh pad
        replace_page_def get_substitution_plain[OF nd]
        parseInt_def parseInt_digits[OF dig] parseInt_digits[OF b] val)
qed

lemma fetchPage_strided_next:
  assumes src: "nth_opt (urls st) (priv_urlIndex st) = Some (strided_template pre a b post)"
    and pre: "CHR ''{'' \<notin> set pre" and post: "CHR ''}'' \<notin> set post"
    and a: "all_digits 10 a" and b: "all_digits 10 b"
    and page: "priv_urlPage st = left_pad (zero_padded a) (Num (Fin (int v)))"
  shows "fetchPage st =
           Inr (Request (payload_of (pre @ (if zero_padded a \<and> v < 10 then CHR ''0'' # show_nat v
                                            else show_nat v) @ post)) False,
                st\<lparr>priv_urlPage := left_pad (zero_padded a)
                       (Num (Fin (int (v + digits_value 10 0 b))))\<rparr>)"
proof -
  let ?cur = "left_pad (zero_padded a) (Num (Fin (int v)))"
  have nd: "CHR ''$'' \<notin> set (to_string ?cur)"
    unfolding padded_state(1)
    using digits_no_dollar[OF show_nat_digits, of v] by simp
  have pi: "parseInt_str (to_string ?cur) = Fin (int v)"
    using padded_state(2)[of "zero_padded a" v] by (simp add: parseInt_def)
  show ?thesis
    unfolding fetchPage_def
    by (simp add: src exec_page_strided[OF pre post a b] page_params_strided[OF a b] page
        padded_state(3) replace_page_def get_substitution_plain[OF nd]
        parseInt_def pi parseInt_digits[OF b] del: js_lt.simps)
       (simp add: padded_state(1))
qed

lemma sent_page_Suc:
  "sent_page a b (Suc k) =
     (let v = digits_value 10 0 a + Suc k * digits_value 10 0 b
      in if zero_padded a \<and> v < 10 then CHR ''0'' # show_nat v else show_nat v)"
  by (simp add: sent_page_def Let_def)

lemma sent_page_later: "sent_page a b (Suc k) = strided_page a b (Suc k)"
  by (simp add: sent_page_def strided_page_def Let_def)

text \<open>
  A source \<^verbatim>\<open>{page:A-B}\<close>, \<open>A\<close> and \<open>B\<close> written in decimal digits, entered with a fresh
  page state, with replies that keep the source going: the request number \<open>k + 1\<close>
  carries the page text \<open>sent_page a b k\<close>, whose value as a number is \<open>A + k * B\<close>, and
  from the second request on that is the page text of the specification.
\<close>

lemma strided_pages_sent:
  assumes src: "nth_opt (urls st) (priv_urlIndex st) = Some (strided_template pre a b post)"
    and pre: "CHR ''{'' \<notin> set pre" and post: "CHR ''}'' \<notin> set post"
    and a: "all_digits 10 a" and b: "all_digits 10 b"
    and fresh: "priv_urlPage st = Num (Fin (- 1))"
    and ok: "\<forall>k p. \<exists>body. transport k p = Replied 200 body"
    and ex: "\<forall>d. \<exists>ps. extract d = Inr ps \<and> ps \<noteq> []"
  shows "(\<exists>ps. rounds (Suc n) extract transport (Fetching st evs) =
            Fetching (st\<lparr>priv_urlPage := left_pad (zero_padded a)
                            (Num (Fin (int (digits_value 10 0 a + Suc n * digits_value 10 0 b)))),
                         priv_proxies := ps\<rparr>)
              (evs @ map (\<lambda>k. Transport (payload_of (pre @ sent_page a b k @ post))) [0..<Suc n]))
       \<and> parseInt_str (sent_page a b n)
           = Fin (int (digits_value 10 0 a + n * digits_value 10 0 b))
       \<and> sent_page a b (Suc n) = strided_page a b (Suc n)"
proof (intro conjI)
  let ?A = "digits_value 10 0 a" and ?B = "digits_value 10 0 b"
  let ?zp = "zero_padded a"
  show "\<exists>ps. rounds (Suc n) extract transport (Fetching st evs) =
            Fetching (st\<lparr>priv_urlPage := left_pad ?zp (Num (Fin (int (?A + Suc n * ?B)))),
                         priv_proxies := ps\<rparr>)
              (evs @ map (\<lambda>k. Transport (payload_of (pre @ sent_page a b k @ post))) [0..<Suc n])"
  proof (induction n)
    case 0
    let ?p = "payload_of (pre @ sent_page a b 0 @ post)"
    let ?st1 = "st\<lparr>priv_urlPage := left_pad ?zp (Num (Fin (int (?A + ?B))))\<rparr>"
    have fp: "fetchPage st = Inr (Request ?p False, ?st1)"
      by (rule fetchPage_strided_first[OF src pre post a b fresh])
    obtain ps where "round extract transport (Fetching st evs) =
        Fetching (?st1\<lparr>priv_proxies := ps\<rparr>) (evs @ [Transport ?p])"
      using round_good[OF fp ok ex] by blast
    then show ?case
      by (intro exI[of _ ps]) (simp add: rounds_def)
  next
    case (Suc n)
    let ?v = "?A + Suc n * ?B"
    let ?page = "if ?zp \<and> ?v < 10 then CHR ''0'' # show_nat ?v else show_nat ?v"
    from Suc obtain ps where ih: "rounds (Suc n) extract transport (Fetching st evs) =
            Fetching (st\<lparr>priv_urlPage := left_pad ?zp (Num (Fin (int ?v))), priv_proxies := ps\<rparr>)
              (evs @ map (\<lambda>k. Transport (payload_of (pre @ sent_page a b k @ post))) [0..<Suc n])"
      by blast
    let ?st1 = "st\<lparr>priv_urlPage := left_pad ?zp (Num (Fin (int ?v))), priv_proxies := ps\<rparr>"
    let ?evs1 = "evs @ map (\<lambda>k. Transport (payload_of (pre @ sent_page a b k @ post))) [0..<Suc n]"
    have src1: "nth_opt (urls ?st1) (priv_urlIndex ?st1) = Some (strided_template pre a b post)"
      using src by simp
    have page1: "priv_urlPage ?st1 = left_pad ?zp (Num (Fin (int ?v)))" by simp
    let ?p = "payload_of (pre @ ?page @ post)"
    let ?st2 = "?st1\<lparr>priv_urlPage := left_pad ?zp (Num (Fin (int (?v + ?B))))\<rparr>"
    have fp: "fetchPage ?st1 = Inr (Request ?p False, ?st2)"
      by (rule fetchPage_strided_next[OF src1 pre post a b page1])
    obtain ps2 where r: "round extract transport (Fetching ?st1 ?evs1) =
        Fetching (?st2\<lparr>priv_proxies := ps2\<rparr>) (?evs1 @ [Transport ?p])"
      using round_good[OF fp ok ex] by blast
    have pg: "sent_page a b (Suc n) = ?page"
      by (simp add: sent_page_Suc Let_def)
    have v2: "?v + ?B = ?A + Suc (Suc n) * ?B" by simp
    have "rounds (Suc (Suc n)) extract transport (Fetching st evs) =
            round extract transport (Fetching ?st1 ?evs1)"
      using ih by (simp add: rounds_def)
    then show ?case
      unfolding r v2 pg[symmetric]
      by (intro exI[of _ ps2]) simp
  qed
next
  show "parseInt_str (sent_page a b n) = Fin (int (digits_value 10 0 a + n * digits_value 10 0 b))"
  proof (cases n)
    case 0
    have dig: "all_digits 10 (sent_page a b 0)"
      using a by (simp add: sent_page_def zero_digits)
    have val: "digits_value 10 0 (sent_page a b 0) = digits_value 10 0 a"
      by (simp add: sent_page_def zero_digits_value del: digits_value.simps)
    show ?thesis using 0 by (simp add: parseInt_digits[OF dig] val)
  next
    case (Suc k)
    have d: "all_digits 10 (CHR ''0'' # show_nat v)" for v by (rule zero_digits[OF show_nat_digits])
    show ?thesis
      unfolding Suc sent_page_Suc Let_def
      by (simp add: parseInt_show_nat parseInt_digits[OF d] zero_digits_value show_nat_value
            del: digits_value.simps)
  qed
next
  show "sent_page a b (Suc n) = strided_page a b (Suc n)"
    by (rule sent_page_later)
qed

text \<open>
  C2: the first request of \<^verbatim>\<open>{page:01-1}\<close>. The branch for \<^verbatim>\<open>A-B\<close> keeps the start value as
  the text \<^verbatim>\<open>01\<close> and sets \<^verbatim>\<open>leftPad\<close>; the padding that follows puts a second zero in
  front, and the first URL carries \<^verbatim>\<open>001\<close> where the specification has the two-digit
  form \<^verbatim>\<open>01\<close>. The second request carries \<^verbatim>\<open>02\<close>. The branch for a start value alone,
  \<^verbatim>\<open>{page:01}\<close>, turns it into a number first and sends \<^verbatim>\<open>01\<close>.
\<close>

theorem padded_start_sent_with_three_digits:
  "rounds 2 same_record always_ok (Fetching samair []) =
     Fetching (samair\<lparr>priv_urlPage := Str ''03'',
                       priv_proxies := [''1.2.3.4:80'', ''1.2.3.4:80'']\<rparr>)
       [Transport \<lparr>p_method = ''GET'', p_url = ''http://www.samair.ru/proxy/proxy-001.htm''\<rparr>,
        Transport \<lparr>p_method = ''GET'', p_url = ''http://www.samair.ru/proxy/proxy-02.htm''\<rparr>]
   \<and> strided_page ''01'' ''1'' 0 = ''01''
   \<and> strided_page ''01'' ''1'' 1 = ''02''
   \<and> fetchPage samair_plain =
       Inr (Request \<lparr>p_method = ''GET'', p_url = ''http://www.samair.ru/proxy/proxy-01.htm''\<rparr>
              False,
            samair_plain\<lparr>priv_urlPage := Str ''02''\<rparr>)"
  by code_simp

subsection \<open>Tokens the pattern does not know\<close>














text \<open>
  With a parser that rejects every URL the call for a \<^verbatim>\<open>POST:\<close> source throws, and the call
  for another source does not.
\<close>

lemma fetchPage_form_examples:
  "fetchPage_form (\<lambda>w. Inl URIError :: js_error + unit) gather_france = Inl URIError
   \<and> round_whole (\<lambda>w. Inl URIError :: js_error + unit) same_record always_ok
        (Fetching gather_france []) = Thrown URIError []
   \<and> fetchPage_form (\<lambda>w. Inl URIError :: js_error + unit) unclosed = Inr None"
  by code_simp

subsection \<open>\<^verbatim>\<open>str_rot13\<close> undoes itself\<close>


lemma of_char_of_nat: "n < 256 \<Longrightarrow> (of_char (char_of (n::nat)) :: nat) = n"
  by simp

lemma lower_upper: "65 \<le> (of_char c :: nat) \<Longrightarrow> (of_char c :: nat) \<le> 90 \<Longrightarrow>
  (of_char (lower_char c) :: nat) = of_char c + 32"
  by (simp add: lower_char_def Let_def)

lemma lower_other: "\<not> (65 \<le> (of_char c :: nat) \<and> (of_char c :: nat) \<le> 90) \<Longrightarrow> lower_char c = c"
  by (auto simp add: lower_char_def Let_def)

text \<open>The code of the character that \<open>rot13_char\<close> gives.\<close>

lemma rot13_code:
  "(of_char (rot13_char c) :: nat) =
     (let n = of_char c in
      if (65 \<le> n \<and> n < 78) \<or> (97 \<le> n \<and> n < 110) then n + 13
      else if (78 \<le> n \<and> n \<le> 90) \<or> (110 \<le> n \<and> n \<le> 122) then n - 13
      else n)"
proof -
  let ?n = "of_char c :: nat"
  consider (up) "65 \<le> ?n" "?n \<le> 90" | (lo) "97 \<le> ?n" "?n \<le> 122"
    | (other) "\<not> ((65 \<le> ?n \<and> ?n \<le> 90) \<or> (97 \<le> ?n \<and> ?n \<le> 122))"
    by linarith
  then show ?thesis
  proof cases
    case up
    then show ?thesis
      by (simp add: rot13_char_def Let_def lower_upper)
  next
    case lo
    then have "lower_char c = c" by (intro lower_other) simp
    with lo show ?thesis
      by (simp add: rot13_char_def Let_def)
  next
    case other
    then show ?thesis by (auto simp add: rot13_char_def Let_def)
  qed
qed

lemma rot13_char_twice: "rot13_char (rot13_char c) = c"
proof -
  have "(of_char (rot13_char (rot13_char c)) :: nat) = of_char c"
    unfolding rot13_code[of "rot13_char c"] unfolding rot13_code[of c] Let_def
    by auto
  then show ?thesis by (simp only: of_char_eq_iff)
qed


lemma str_rot13_twice: "str_rot13 (str_rot13 s) = s"
  by (simp add: str_rot13_def rot13_char_twice map_idI)

text \<open>\<^verbatim>\<open>str_rot13\<close> is rot13.\<close>

lemma shift13: "k < 26 \<Longrightarrow> (k + 13) mod 26 = (if k < 13 then k + 13 else k - 13)" for k :: nat
proof (cases "k < 13")
  case True
  then show ?thesis by simp
next
  case False
  assume "k < 26"
  with False have "(k + 13) mod 26 = (k + 13 - 26) mod 26"
    by (simp add: le_mod_geq)
  also have "\<dots> = k - 13" using False \<open>k < 26\<close> by simp
  finally show ?thesis using False by simp
qed

lemma rotate13_letter:
  assumes "first \<le> n" and "n < first + 26"
  shows "rotate13 first n = (if n < first + 13 then n + 13 else n - 13)"
proof -
  define k where "k = n - first"
  have n: "n = first + k" and k: "k < 26" using assms by (simp_all add: k_def)
  have "rotate13 first n = first + (k + 13) mod 26"
    by (simp add: rotate13_def k_def)
  also have "\<dots> = first + (if k < 13 then k + 13 else k - 13)"
    by (simp only: shift13[OF k])
  also have "\<dots> = (if n < first + 13 then n + 13 else n - 13)"
    using n by auto
  finally show ?thesis .
qed

lemma rot13_letter_code:
  "(of_char (rot13_letter c) :: nat) =
     (let n = of_char c in
      if (65 \<le> n \<and> n < 78) \<or> (97 \<le> n \<and> n < 110) then n + 13
      else if (78 \<le> n \<and> n \<le> 90) \<or> (110 \<le> n \<and> n \<le> 122) then n - 13
      else n)"
proof -
  let ?n = "of_char c :: nat"
  consider (lo) "97 \<le> ?n" "?n \<le> 122" | (up) "65 \<le> ?n" "?n \<le> 90"
    | (other) "\<not> ((65 \<le> ?n \<and> ?n \<le> 90) \<or> (97 \<le> ?n \<and> ?n \<le> 122))"
    by linarith
  then show ?thesis
  proof cases
    case lo
    then have r: "rotate13 97 ?n = (if ?n < 110 then ?n + 13 else ?n - 13)"
      using rotate13_letter[of 97 ?n] by simp
    show ?thesis
      using lo by (simp add: rot13_letter_def Let_def r)
  next
    case up
    then have r: "rotate13 65 ?n = (if ?n < 78 then ?n + 13 else ?n - 13)"
      using rotate13_letter[of 65 ?n] by simp
    show ?thesis
      using up by (simp add: rot13_letter_def Let_def r)
  next
    case other
    then show ?thesis by (auto simp add: rot13_letter_def Let_def)
  qed
qed

lemma rot13_char_letter: "rot13_char c = rot13_letter c"
proof -
  have "(of_char (rot13_char c) :: nat) = of_char (rot13_letter c)"
    by (simp only: rot13_code rot13_letter_code)
  then show ?thesis by (simp only: of_char_eq_iff)
qed

lemma str_rot13_rot13: "str_rot13 (rot13 s) = s"
proof -
  have "rot13 s = str_rot13 s"
    by (simp add: rot13_def str_rot13_def rot13_char_letter)
  then show ?thesis by (simp add: str_rot13_twice)
qed

subsection \<open>Base64 there and back\<close>

lemma b64_alphabet:
  "map b64_char [0..<64] = ''ABCDEFGHIJKLMNOPQRSTUVWXYZabcdefghijklmnopqrstuvwxyz0123456789+/''"
  by code_simp

lemma unbase64_b64_char: "n < 64 \<Longrightarrow> unbase64 (b64_char n) = Some n"
  by (auto simp: unbase64_def b64_char_def Let_def)

lemma b64_char_not_pad: "n < 64 \<Longrightarrow> b64_char n \<noteq> CHR ''=''"
proof
  assume n: "n < 64" and "b64_char n = CHR ''=''"
  then have "unbase64 (b64_char n) = unbase64 CHR ''=''" by simp
  moreover have "unbase64 CHR ''='' = None" by (simp add: unbase64_def)
  ultimately show False using unbase64_b64_char[OF n] by simp
qed

lemma sextet_arith:
  fixes a b c :: nat
  shows "b < 256 \<Longrightarrow> ((a mod 4) * 16 + b div 16) div 16 = a mod 4"
    and "b < 256 \<Longrightarrow> ((a mod 4) * 16 + b div 16) mod 16 = b div 16"
    and "c < 256 \<Longrightarrow> ((b mod 16) * 4 + c div 64) div 4 = b mod 16"
    and "c < 256 \<Longrightarrow> ((b mod 16) * 4 + c div 64) mod 4 = c div 64"
  by simp_all

lemma sextet_bounds:
  fixes a b c :: nat
  shows "a < 256 \<Longrightarrow> a div 4 < 64"
    and "b < 256 \<Longrightarrow> (a mod 4) * 16 + b div 16 < 64"
    and "c < 256 \<Longrightarrow> (b mod 16) * 4 + c div 64 < 64"
    and "(b mod 16) * 4 < 64" and "(a mod 4) * 16 < 64" and "c mod 64 < 64"
proof -
  show "a < 256 \<Longrightarrow> a div 4 < 64" by simp
  show "(a mod 4) * 16 + b div 16 < 64" if "b < 256"
  proof -
    from that have "b div 16 < 16" by simp
    moreover have "a mod 4 < 4" by simp
    ultimately show ?thesis by linarith
  qed
  show "(b mod 16) * 4 + c div 64 < 64" if "c < 256"
  proof -
    from that have "c div 64 < 4" by simp
    moreover have "b mod 16 < 16" by simp
    ultimately show ?thesis by linarith
  qed
  have "b mod 16 < 16" by simp
  then show "(b mod 16) * 4 < 64" by linarith
  have "a mod 4 < 4" by simp
  then show "(a mod 4) * 16 < 64" by linarith
  show "c mod 64 < 64" by simp
qed

lemma sextets_bound: "\<forall>b\<in>set bs. b < 256 \<Longrightarrow> \<forall>x\<in>set (bytes_to_sextets bs). x < 64"
  by (induction bs rule: bytes_to_sextets.induct) (simp_all add: sextet_bounds)

lemma sextets_roundtrip:
  "\<forall>b\<in>set bs. b < 256 \<Longrightarrow> sextets_to_bytes (bytes_to_sextets bs) = bs"
proof (induction bs rule: bytes_to_sextets.induct)
  case (1 a b c r)
  then have lt: "a < 256" "b < 256" "c < 256" and ih: "sextets_to_bytes (bytes_to_sextets r) = r"
    by simp_all
  have "sextets_to_bytes (bytes_to_sextets (a # b # c # r)) =
          (a div 4 * 4 + a mod 4) # (b div 16 * 16 + b mod 16) # (c div 64 * 64 + c mod 64) # r"
    by (simp only: bytes_to_sextets.simps sextets_to_bytes.simps
          sextet_arith(1,2)[OF lt(2)] sextet_arith(3,4)[OF lt(3)] ih)
  then show ?case by simp
next
  case (2 a b)
  then have lt: "a < 256" "b < 256" by simp_all
  have z: "(0::nat) < 256" by simp
  have "sextets_to_bytes (bytes_to_sextets [a, b]) =
          [a div 4 * 4 + a mod 4, b div 16 * 16 + (b mod 16 * 4) div 4]"
    by (simp only: bytes_to_sextets.simps sextets_to_bytes.simps
          sextet_arith(1,2)[OF lt(2)])
  then show ?case by simp
next
  case (3 a)
  have "sextets_to_bytes (bytes_to_sextets [a]) = [a div 4 * 4 + (a mod 4 * 16) div 16]"
    by (simp only: bytes_to_sextets.simps sextets_to_bytes.simps)
  then show ?case by simp
qed simp

lemma map_filter_unbase64:
  "\<forall>x\<in>set xs. x < 64 \<Longrightarrow> List.map_filter unbase64 (map b64_char xs) = xs"
  by (induction xs) (simp_all add: List.map_filter_simps unbase64_b64_char)

lemma base64_roundtrip: "base64_decode (base64_encode s) = s"
proof -
  let ?bs = "map of_char s :: nat list"
  let ?sx = "bytes_to_sextets ?bs"
  have bytes: "\<forall>b\<in>set ?bs. b < 256" by auto
  have sx: "\<forall>x\<in>set ?sx. x < 64" by (rule sextets_bound[OF bytes])
  have np: "\<forall>c\<in>set (map b64_char ?sx). c \<noteq> CHR ''=''"
    using sx by (auto simp: b64_char_not_pad)
  have tw: "takeWhile (\<lambda>c. c \<noteq> CHR ''='') (base64_encode s) = map b64_char ?sx"
  proof (cases "(3 - length s mod 3) mod 3")
    case 0
    with np show ?thesis by (simp add: base64_encode_def)
  next
    case (Suc k)
    then have "replicate ((3 - length s mod 3) mod 3) CHR ''='' = CHR ''='' # replicate k CHR ''=''"
      by simp
    with np show ?thesis
      by (simp add: base64_encode_def takeWhile_append_stop del: replicate.simps)
  qed
  have mf: "List.map_filter unbase64 (map b64_char ?sx) = ?sx"
    by (rule map_filter_unbase64[OF sx])
  have "base64_decode (base64_encode s) = map char_of (sextets_to_bytes ?sx)"
    by (simp add: base64_decode_def tw mf)
  also have "\<dots> = map char_of ?bs" by (simp add: sextets_roundtrip[OF bytes])
  also have "\<dots> = s" by (simp add: map_idI)
  finally show ?thesis .
qed

text \<open>
  C8. For every string \<open>s\<close>: base64 of \<open>s\<close>, then rot13 on its letters (digits and
  the other characters untouched), is a payload from which the pipeline of the
  cool-proxy adapter (\<^verbatim>\<open>str_rot13\<close>, then the base64 decoder) gives \<open>s\<close> back.
\<close>

theorem cool_proxy_decode_inverts:
  "base64_decode (str_rot13 (rot13 (base64_encode s))) = s"
  by (simp add: str_rot13_rot13 base64_roundtrip)

text \<open>The example payload of the specification reads \<^verbatim>\<open>ipa\<close> after rot13.\<close>

lemma rot13_vcn: "str_rot13 ''vcn'' = ''ipa'' \<and> rot13 ''vcn'' = ''ipa''"
  by code_simp

lemma rot13_examples: "rot13 ''Hello, World 42!'' = ''Uryyb, Jbeyq 42!''"
  by code_simp

subsection \<open>The store\<close>

lemma set_add_all_set: "set (set_add_all seen xs) = set seen \<union> set xs"
  by (induction xs arbitrary: seen) auto

lemma set_add_all_distinct: "distinct seen \<Longrightarrow> distinct (set_add_all seen xs)"
  by (induction xs arbitrary: seen) auto

lemma set_add_all_append:
  "set_add_all seen (xs @ ys) = set_add_all (set_add_all seen xs) ys"
  by (induction xs arbitrary: seen) auto

lemma set_add_all_known: "set xs \<subseteq> set seen \<Longrightarrow> set_add_all seen xs = seen"
  by (induction xs arbitrary: seen) auto

lemma set_add_all_fresh: "distinct (seen @ xs) \<Longrightarrow> set_add_all seen xs = seen @ xs"
  by (induction xs arbitrary: seen) auto

lemma array_from_set_distinct: "distinct (array_from_set xs)"
  by (simp add: array_from_set_def set_add_all_distinct)

lemma array_from_set_set: "set (array_from_set xs) = set xs"
  by (simp add: array_from_set_def set_add_all_set)

lemma array_from_set_id: "distinct xs \<Longrightarrow> array_from_set xs = xs"
  using set_add_all_fresh[of "[]" xs] by (simp add: array_from_set_def)

lemma array_from_set_twice: "distinct xs \<Longrightarrow> array_from_set (xs @ xs) = xs"
  using set_add_all_fresh[of "[]" xs]
  by (simp add: array_from_set_def set_add_all_append set_add_all_known)

text \<open>The order is that of the first occurrences.\<close>

lemma remdups_drop_known: "x \<in> set zs \<Longrightarrow> remdups (ys @ x # zs) = remdups (ys @ zs)"
  by (induction ys) auto

lemma set_add_all_first_seen:
  "distinct seen \<Longrightarrow> set_add_all seen xs = rev (remdups (rev (seen @ xs)))"
proof (induction xs arbitrary: seen)
  case Nil
  then show ?case by (simp add: distinct_remdups_id)
next
  case (Cons x xs)
  show ?case
  proof (cases "x \<in> set seen")
    case True
    then have "remdups (rev xs @ x # rev seen) = remdups (rev xs @ rev seen)"
      by (intro remdups_drop_known) simp
    with Cons True show ?thesis by simp
  next
    case False
    with Cons.prems have "distinct (seen @ [x])" by simp
    from Cons.IH[OF this] False show ?thesis by simp
  qed
qed

lemma array_from_set_first_seen: "array_from_set xs = rev (remdups (rev xs))"
  using set_add_all_first_seen[of "[]" xs] by (simp add: array_from_set_def)

lemma split_on_parts: "\<forall>x\<in>set (split_on c s). c \<notin> set x"
  by (induction s) (auto split: list.splits)

lemma split_on_join:
  "xs \<noteq> [] \<Longrightarrow> \<forall>x\<in>set xs. c \<notin> set x \<Longrightarrow> split_on c (join_with [c] xs) = xs"
proof (induction "[c]" xs rule: join_with.induct)
  case 1
  then show ?case by simp
next
  case (2 x)
  then show ?case by (simp add: split_on_notin)
next
  case (3 x y ys)
  then have "c \<notin> set x" by simp
  from split_on_append[OF this, of "join_with [c] (y # ys)"] 3 show ?case by simp
qed

lemma saveProxies_new_file:
  assumes "files (output_path now st) = None"
  shows "saveProxies now files st =
           (files(output_path now st \<mapsto> join_with [CHR 0x0A] (priv_proxies st)), st, None)"
  using assms by (simp add: saveProxies_def output_path_def)

lemma saveProxies_old_file:
  assumes "files (output_path now st) = Some text"
  shows "saveProxies now files st =
           (let merged = priv_proxies st @ split_on CHR 0x0A text;
                unique = array_from_set merged
            in (files(output_path now st \<mapsto> join_with [CHR 0x0A] unique),
                st\<lparr>priv_proxies := unique\<rparr>,
                if length unique < length merged then Some (length merged - length unique)
                else None))"
  using assms by (simp add: saveProxies_def output_path_def Let_def)

text \<open>
  What the flush does where the file exists: the records in memory, then the lines of
  the file, each kept at its first occurrence only.
\<close>

lemma saveProxies_merges:
  assumes "files (output_path now st) = Some text"
    and "saveProxies now files st = (files1, st1, removed)"
  shows "files1 (output_path now st) =
           Some (join_with [CHR 0x0A] (rev (remdups (rev (priv_proxies st @ split_on CHR 0x0A text)))))
         \<and> priv_proxies st1 = rev (remdups (rev (priv_proxies st @ split_on CHR 0x0A text)))
         \<and> distinct (priv_proxies st1)"
  using assms(2) unfolding saveProxies_old_file[where files=files, OF assms(1)] Let_def
  by (auto simp: array_from_set_first_seen)

lemma flush_again:
  assumes d: "distinct (priv_proxies st)" and ne: "priv_proxies st \<noteq> []"
    and nl: "\<forall>r\<in>set (priv_proxies st). CHR 0x0A \<notin> set r"
    and f: "files (output_path now st) = Some (join_with [CHR 0x0A] (priv_proxies st))"
  shows "saveProxies now files st = (files, st, Some (length (priv_proxies st)))"
proof -
  let ?P = "priv_proxies st"
  have sp: "split_on CHR 0x0A (join_with [CHR 0x0A] ?P) = ?P"
    by (rule split_on_join[OF ne nl])
  have u: "array_from_set (?P @ ?P) = ?P" by (rule array_from_set_twice[OF d])
  have same: "files(output_path now st \<mapsto> join_with [CHR 0x0A] ?P) = files"
    using f by (simp add: fun_upd_idem)
  have st: "st\<lparr>priv_proxies := ?P\<rparr> = st" by simp
  show ?thesis
    unfolding saveProxies_old_file[where files=files, OF f] Let_def sp u same st
    using ne by simp
qed

text \<open>
  Records without a line feed are flushed, and flushed again at once. Where the first
  flush finds a file, or finds none and the records in memory are a set (no record
  twice, at least one record), the second flush leaves the files and the records in
  memory as the first left them, and the number of duplicates it reports is the number
  of lines of the file it read.
\<close>

lemma flush_twice_of_a_set:
  assumes nl: "\<forall>r\<in>set (priv_proxies st). CHR 0x0A \<notin> set r"
    and fresh: "files (output_path now st) = None
                \<Longrightarrow> distinct (priv_proxies st) \<and> priv_proxies st \<noteq> []"
    and one: "saveProxies now files st = (files1, st1, removed1)"
    and two: "saveProxies now files1 st1 = (files2, st2, removed2)"
  shows "files2 = files1 \<and> st2 = st1
       \<and> (\<exists>text. files1 (output_path now st) = Some text
                 \<and> removed2 = Some (length (split_on CHR 0x0A text)))"
proof -
  let ?path = "output_path now st"
  let ?P1 = "priv_proxies st1"
  have first: "output_path now st1 = ?path \<and> files1 ?path = Some (join_with [CHR 0x0A] ?P1)
              \<and> distinct ?P1 \<and> ?P1 \<noteq> [] \<and> (\<forall>r\<in>set ?P1. CHR 0x0A \<notin> set r)"
  proof (cases "files ?path")
    case None
    from one[unfolded saveProxies_new_file[where files=files, OF None]] fresh[OF None] nl
    show ?thesis by auto
  next
    case (Some old)
    let ?U = "array_from_set (priv_proxies st @ split_on CHR 0x0A old)"
    from one[unfolded saveProxies_old_file[where files=files, OF Some] Let_def]
    have eq: "files1 = files(?path \<mapsto> join_with [CHR 0x0A] ?U)" "st1 = st\<lparr>priv_proxies := ?U\<rparr>"
      by simp_all
    have s: "set ?U = set (priv_proxies st) \<union> set (split_on CHR 0x0A old)"
      by (simp add: array_from_set_set)
    have "set ?U \<noteq> {}"
      unfolding s using split_on_nonempty[of "CHR 0x0A" old] by simp
    then have "?U \<noteq> []" by auto
    moreover have "\<forall>r\<in>set ?U. CHR 0x0A \<notin> set r"
      unfolding s using nl split_on_parts[of "CHR 0x0A" old] by auto
    ultimately show ?thesis
      using eq by (simp add: output_path_def array_from_set_distinct)
  qed
  then have path1: "output_path now st1 = ?path"
    and f1: "files1 ?path = Some (join_with [CHR 0x0A] ?P1)"
    and d1: "distinct ?P1" and ne1: "?P1 \<noteq> []" and nl1: "\<forall>r\<in>set ?P1. CHR 0x0A \<notin> set r"
    by simp_all
  have f1': "files1 (output_path now st1) = Some (join_with [CHR 0x0A] ?P1)"
    using f1 path1 by simp
  from two[unfolded flush_again[where files=files1, OF d1 ne1 nl1 f1']]
  have r: "files2 = files1" "st2 = st1" "removed2 = Some (length ?P1)" by auto
  have "split_on CHR 0x0A (join_with [CHR 0x0A] ?P1) = ?P1"
    by (rule split_on_join[OF ne1 nl1])
  with r f1 show ?thesis by simp
qed

subsection \<open>The flush without a file, and the retry\<close>

text \<open>
  C6: with no output file the accumulator is written as it is. Two single-shot sources
  that list the same record leave it twice in the accumulator, and twice in the file.
\<close>

theorem flush_without_file_keeps_duplicates:
  "rounds 2 same_record always_ok (Fetching twice_listed []) =
     Saving (twice_listed\<lparr>priv_urlIndex := 1, priv_urlPage := Num (Fin 2),
                            priv_proxies := [''1.2.3.4:80'', ''1.2.3.4:80'']\<rparr>)
       [Transport \<lparr>p_method = ''GET'', p_url = ''http://www.us-proxy.org/''\<rparr>,
        Transport \<lparr>p_method = ''GET'', p_url = ''http://www.us-proxy.org/uk-proxy.html''\<rparr>]
   \<and> fst (saveProxies today Map.empty
         (twice_listed\<lparr>priv_urlIndex := 1, priv_urlPage := Num (Fin 2),
                         priv_proxies := [''1.2.3.4:80'', ''1.2.3.4:80'']\<rparr>))
       ''proxies_03-11-2026.txt'' =
       Some (join_with [CHR 0x0A] [''1.2.3.4:80'', ''1.2.3.4:80''])"
  by code_simp

text \<open>
  C7: the run above is flushed twice in succession. The first flush writes a file of two
  lines; the second reads them back, merges them with the two records in memory, reports
  three duplicates where the file it read has two records, and writes a file of one line.
\<close>

theorem second_flush_counts_memory_duplicates:
  "(case saveProxies today Map.empty
           (twice_listed\<lparr>priv_urlIndex := 1, priv_urlPage := Num (Fin 2),
                           priv_proxies := [''1.2.3.4:80'', ''1.2.3.4:80'']\<rparr>) of
      (files1, st1, removed1) \<Rightarrow>
        (case saveProxies today files1 st1 of
           (files2, st2, removed2) \<Rightarrow>
             (map_option (split_on CHR 0x0A) (files1 ''proxies_03-11-2026.txt''),
              removed2,
              map_option (split_on CHR 0x0A) (files2 ''proxies_03-11-2026.txt'')))) =
   (Some [''1.2.3.4:80'', ''1.2.3.4:80''], Some 3, Some [''1.2.3.4:80''])"
  by code_simp

text \<open>
  C9: the timer's callback assigns \<^verbatim>\<open>urlPage\<close>, not \<^verbatim>\<open>_urlPage\<close>. A cycle over one
  paginated source ends with the page state 3; after the flush and the callback the
  source index and the accumulator are reset, the page state is still 3, and the second
  cycle opens with page 3 instead of page 1.
\<close>

theorem retry_keeps_page_state:
  "rounds 2 first_page_only always_ok (Fetching paged []) =
     Saving (paged\<lparr>priv_urlPage := Num (Fin 3), priv_proxies := [''1.2.3.4:80'']\<rparr>)
       [Transport \<lparr>p_method = ''GET'', p_url = ''http://h/1''\<rparr>,
        Transport \<lparr>p_method = ''GET'', p_url = ''http://h/2''\<rparr>]
   \<and> snd (snd (snd (save today Map.empty
         (paged\<lparr>priv_urlPage := Num (Fin 3), priv_proxies := [''1.2.3.4:80'']\<rparr>)))) =
       Some (paged\<lparr>priv_urlPage := Num (Fin 3), urlPage := Some (Num (Fin (- 1)))\<rparr>)
   \<and> fetchPage (paged\<lparr>priv_urlPage := Num (Fin 3), urlPage := Some (Num (Fin (- 1)))\<rparr>) =
       Inr (Request \<lparr>p_method = ''GET'', p_url = ''http://h/3''\<rparr> False,
            paged\<lparr>priv_urlPage := Num (Fin 4), urlPage := Some (Num (Fin (- 1)))\<rparr>)"
  by code_simp

text \<open>What the callback resets and what it leaves.\<close>

lemma timer_callback_frame:
  "urls (timer_callback st) = urls st \<and> outputFile (timer_callback st) = outputFile st
   \<and> retry (timer_callback st) = retry st \<and> verbose (timer_callback st) = verbose st
   \<and> priv_urlIndex (timer_callback st) = 0 \<and> priv_proxies (timer_callback st) = []
   \<and> priv_urlPage (timer_callback st) = priv_urlPage st"
  by (simp add: timer_callback_def)

subsection \<open>What the extraction raises\<close>





















text \<open>An object with a \<^verbatim>\<open>toString\<close> of its own as the type or the port of an element.\<close>

lemma nordvpn_item_own_toString:
  "nordvpn_item (JObj [(''type'', JObj [(''toString'', JNum ''1'')]),
                      (''ip'', JStr ''1.2.3.4''), (''port'', JNum ''80'')]) = Inl TypeError
   \<and> nordvpn_item (JObj [(''type'', JStr ''HTTP''), (''ip'', JStr ''1.2.3.4''),
                        (''port'', JObj [(''toString'', JNull)])]) = Inl TypeError
   \<and> nordvpn_item (JObj [(''type'', JArr [JStr ''HTTP'']), (''ip'', JStr ''1.2.3.4''),
                        (''port'', JArr [JNum ''80'', JNull, JObj []])])
       = Inr [''1.2.3.4:80,,[object Object]'']"
  by code_simp







text \<open>
  The adapter for hidemyass tests \<^verbatim>\<open>!styles.length\<close> to warn about a row without rules,
  but \<^verbatim>\<open>match\<close> gives \<^verbatim>\<open>null\<close> for such a row and the test itself throws.
\<close>

lemma hidemyass_row_without_rules:
  "style_rules 0 (el_text a ''td:nth-child(2)>span>style'') = [] \<Longrightarrow> hidemyass_row a = Inl TypeError"
  by (simp add: hidemyass_row_def Let_def)




end
